theory Spec2Isabelle
  imports Complex_Main
begin

section \<open>Conformer matching of \<open>match_minima.py\<close>\<close>

text \<open>
  A shallow embedding of the core of \<open>src/03_analysis/match_minima.py\<close>: the geometry
  matcher \<open>compare_two_mols\<close>, the energy reader \<open>get_sd_list\<close>, the orchestrator
  \<open>match_minima\<close>, the resolver \<open>extract_matches\<close>, the relative-energy stage
  \<open>calc_rel_ene\<close> and the error stage \<open>calc_rms_error\<close>.

  Modelling conventions.
  \<^item> A Python exception is a value \<open>Inl e\<close> of a sum type; a loop that raises stops there.
  \<^item> An energy is a Python float. Finite doubles are idealised as real numbers
    (\<open>Fin x\<close>) and the not-a-number value is the separate constructor \<open>NaN\<close>, with the
    IEEE rule that every arithmetic operation on \<open>NaN\<close> gives \<open>NaN\<close>. Rounding, overflow
    and the infinities are not part of the model.
  \<^item> The geometric distance oracle \<open>oechem.OERMSD\<close> (called with automorph, all atoms,
    overlay) is a parameter \<open>OERMSD\<close> that returns a real number.
  \<^item> An entry of an index list is what the code stores: \<open>None\<close>, or a Python integer
    \<open>Some i\<close>, where \<open>-1\<close> stands for "query file is the reference file" and \<open>-2\<close> for
    "molecule not found in the query file".
\<close>

subsection \<open>Python values\<close>

datatype pyerr = ValueError | IndexError | FileNotFoundError

datatype pyfloat = Fin real | NaN

fun isnan :: "pyfloat \<Rightarrow> bool" where
  "isnan NaN = True"
| "isnan (Fin x) = False"

fun fsub :: "pyfloat \<Rightarrow> pyfloat \<Rightarrow> pyfloat" where
  "fsub (Fin x) (Fin y) = Fin (x - y)"
| "fsub _ _ = NaN"

fun fsquare :: "pyfloat \<Rightarrow> pyfloat" where
  "fsquare (Fin x) = Fin (x * x)"
| "fsquare NaN = NaN"

fun fsqrt :: "pyfloat \<Rightarrow> pyfloat" where
  "fsqrt (Fin x) = (if x < 0 then NaN else Fin (sqrt x))"
| "fsqrt NaN = NaN"

text \<open>\<open>xs[i]\<close> for a Python list and a Python integer: a negative index counts from the
  end, an index out of range raises \<open>IndexError\<close>.\<close>

definition py_get :: "'a list \<Rightarrow> int \<Rightarrow> pyerr + 'a" where
  "py_get xs i =
     (if 0 \<le> i \<and> i < int (length xs) then Inr (xs ! nat i)
      else if i < 0 \<and> - int (length xs) \<le> i then Inr (xs ! nat (int (length xs) + i))
      else Inl IndexError)"

subsection \<open>Molecules\<close>

text \<open>A conformer carries its geometry (only the distance oracle looks at it) and its
  SD data pairs \<open>(tag, value)\<close> in file order; a molecule has a title and its conformers.\<close>

record 'g conf =
  geometry :: 'g
  OEGetSDDataPairs :: "(string \<times> string) list"

record 'g oemol =
  GetTitle :: string
  GetConfs :: "'g conf list"

definition NumConfs :: "'g oemol \<Rightarrow> nat" where
  "NumConfs m = length (GetConfs m)"

subsection \<open>\<open>compare_two_mols\<close>\<close>

text \<open>
  For one reference conformer, with \<open>thisR_allQ\<close> the distances to all query conformers:
  \<^verbatim>\<open>
  lowest_rmsd_index = [i for i, j in enumerate(thisR_allQ) if j == min(thisR_allQ)][0]
  if thisR_allQ[lowest_rmsd_index] <= rmsd_cutoff: molIndices.append(lowest_rmsd_index)
  else: molIndices.append(None)
  \<close>
  On an empty \<open>thisR_allQ\<close> the comprehension is empty and \<open>[0]\<close> raises \<open>IndexError\<close>.
\<close>

definition lowest_rmsd_index :: "real list \<Rightarrow> pyerr + nat" where
  "lowest_rmsd_index thisR_allQ =
     (case filter (\<lambda>i. thisR_allQ ! i = min_list thisR_allQ) [0..<length thisR_allQ] of
        [] \<Rightarrow> Inl IndexError
      | i # _ \<Rightarrow> Inr i)"

definition match_ref_conf :: "real list \<Rightarrow> real \<Rightarrow> pyerr + int option" where
  "match_ref_conf thisR_allQ rmsd_cutoff =
     (case lowest_rmsd_index thisR_allQ of
        Inl e \<Rightarrow> Inl e
      | Inr i \<Rightarrow> if thisR_allQ ! i \<le> rmsd_cutoff then Inr (Some (int i)) else Inr None)"

fun compare_loop ::
  "('g \<Rightarrow> 'g \<Rightarrow> real) \<Rightarrow> 'g conf list \<Rightarrow> 'g conf list \<Rightarrow> real \<Rightarrow> int option list
     \<Rightarrow> pyerr + int option list" where
  "compare_loop OERMSD [] qconfs rmsd_cutoff molIndices = Inr molIndices"
| "compare_loop OERMSD (ref_conf # rest) qconfs rmsd_cutoff molIndices =
     (case match_ref_conf
             (map (\<lambda>que_conf. OERMSD (geometry ref_conf) (geometry que_conf)) qconfs)
             rmsd_cutoff of
        Inl e \<Rightarrow> Inl e
      | Inr m \<Rightarrow> compare_loop OERMSD rest qconfs rmsd_cutoff (molIndices @ [m]))"

definition compare_two_mols ::
  "('g \<Rightarrow> 'g \<Rightarrow> real) \<Rightarrow> 'g oemol \<Rightarrow> 'g oemol \<Rightarrow> real \<Rightarrow> pyerr + int option list" where
  "compare_two_mols OERMSD rmol qmol rmsd_cutoff =
     compare_loop OERMSD (GetConfs rmol) (GetConfs qmol) rmsd_cutoff []"

text \<open>The distances from reference conformer \<open>k\<close> of \<open>rmol\<close> to every conformer of \<open>qmol\<close>.\<close>

definition distances :: "('g \<Rightarrow> 'g \<Rightarrow> real) \<Rightarrow> 'g oemol \<Rightarrow> 'g oemol \<Rightarrow> nat \<Rightarrow> real list" where
  "distances OERMSD rmol qmol k =
     map (\<lambda>que_conf. OERMSD (geometry (GetConfs rmol ! k)) (geometry que_conf)) (GetConfs qmol)"

subsection \<open>\<open>get_sd_list\<close>\<close>

text \<open>\<open>str.lower\<close> and the substring test \<open>a in b\<close>. A character is a byte; \<open>lower\<close>
  folds the ASCII letters \<open>A\<close> to \<open>Z\<close> and leaves every other byte as it is. Python folds
  every cased character, so the model stands for tags and tag names written in ASCII;
  the other tags are not covered by it.\<close>

definition lower_char :: "char \<Rightarrow> char" where
  "lower_char c =
     (let n = (of_char c :: nat) in if 65 \<le> n \<and> n \<le> 90 then char_of (n + 32) else c)"

definition lower :: "string \<Rightarrow> string" where
  "lower s = map lower_char s"

fun py_in :: "string \<Rightarrow> string \<Rightarrow> bool" where
  "py_in a [] = (a = [])"
| "py_in a (y # ys) = (take (length a) (y # ys) = a \<or> py_in a ys)"

text \<open>
  \<^verbatim>\<open>
  for j, conf in enumerate(mol.GetConfs()):
      for x in oechem.OEGetSDDataPairs(conf):
          if taglabel.lower() in x.GetTag().lower():
              sd_list.append(x.GetValue())
              break
  \<close>
  A conformer without a matching tag appends nothing.
\<close>

definition sd_of_conf :: "'g conf \<Rightarrow> string \<Rightarrow> string list" where
  "sd_of_conf c taglabel =
     (case find (\<lambda>x. py_in (lower taglabel) (lower (fst x))) (OEGetSDDataPairs c) of
        None \<Rightarrow> []
      | Some x \<Rightarrow> [snd x])"

definition get_sd_list :: "'g oemol \<Rightarrow> string \<Rightarrow> string list" where
  "get_sd_list mol taglabel = concat (map (\<lambda>c. sd_of_conf c taglabel) (GetConfs mol))"

text \<open>Evaluating a list of results in order: the first exception ends the evaluation.\<close>

fun sequence_res :: "(pyerr + 'a) list \<Rightarrow> pyerr + 'a list" where
  "sequence_res [] = Inr []"
| "sequence_res (x # xs) =
     (case x of
        Inl e \<Rightarrow> Inl e
      | Inr v \<Rightarrow> (case sequence_res xs of Inl e \<Rightarrow> Inl e | Inr vs \<Rightarrow> Inr (v # vs)))"

text \<open>\<open>list(map(float, ...))\<close>: the parser \<open>float\<close> of Python is a parameter; it answers
  \<open>None\<close> where Python raises \<open>ValueError\<close>.\<close>

definition map_float :: "(string \<Rightarrow> pyfloat option) \<Rightarrow> string list \<Rightarrow> pyerr + pyfloat list" where
  "map_float float xs =
     sequence_res (map (\<lambda>s. case float s of None \<Rightarrow> Inl ValueError | Some v \<Rightarrow> Inr v) xs)"

subsection \<open>\<open>match_minima\<close>\<close>

record ff_method =
  ff_label :: string
  sdfile :: string
  sdtag :: string

record mol_entry =
  energies :: "pyfloat list list"
  indices :: "int option list list"
  ref_nconfs :: "nat list"

text \<open>\<open>mol_dict\<close> is a Python dictionary keyed by title; it keeps the order of insertion,
  which \<open>main\<close> relies on. It is an association list: a new key goes to the end, an
  existing key is updated in place.\<close>

type_synonym mol_dict = "(string \<times> mol_entry) list"

fun dict_set :: "string \<Rightarrow> mol_entry \<Rightarrow> mol_dict \<Rightarrow> mol_dict" where
  "dict_set k v [] = [(k, v)]"
| "dict_set k v (p # ps) = (if fst p = k then (k, v) # ps else p # dict_set k v ps)"

definition dict_get :: "mol_dict \<Rightarrow> string \<Rightarrow> mol_entry" where
  "dict_get d k =
     (case map_of d k of
        Some e \<Rightarrow> e
      | None \<Rightarrow> \<lparr>energies = [], indices = [], ref_nconfs = []\<rparr>)"

text \<open>
  \<open>mols_query\<close> is a generator over the query file. The loop
  \<^verbatim>\<open>
  for qmol in mols_query:
      if rmol.GetTitle() == qmol.GetTitle():
          run_match = True
          break
  \<close>
  takes molecules from it until one has the title; what it has taken is gone for the
  next reference molecule. \<open>scan_query\<close> returns the molecule found, if any, and what is
  left of the generator.
\<close>

fun scan_query :: "string \<Rightarrow> 'g oemol list \<Rightarrow> 'g oemol option \<times> 'g oemol list" where
  "scan_query t [] = (None, [])"
| "scan_query t (qmol # rest) =
     (if t = GetTitle qmol then (Some qmol, rest) else scan_query t rest)"

text \<open>The body of the loop over the reference molecules, for one query method. The state
  is the generator \<open>mols_query\<close> and \<open>mol_dict\<close>. With no molecule found the code appends
  \<open>[-2] * ref_nconfs\<close> and \<open>[nan] * ref_nconfs\<close> and opens the query file again; with a
  molecule found it appends the energies read from the tag, then \<open>[-1] * ref_nconfs\<close>
  when the query file is the reference file and the result of \<open>compare_two_mols\<close>
  otherwise.\<close>

definition match_rmol ::
  "(string \<Rightarrow> pyerr + 'g oemol list) \<Rightarrow> (string \<Rightarrow> pyfloat option) \<Rightarrow> ('g \<Rightarrow> 'g \<Rightarrow> real)
     \<Rightarrow> string \<Rightarrow> ff_method \<Rightarrow> real \<Rightarrow> 'g oemol \<Rightarrow> 'g oemol list \<times> mol_dict
     \<Rightarrow> pyerr + ('g oemol list \<times> mol_dict)" where
  "match_rmol read_mols float OERMSD sdf_ref ff_dict rmsd_cutoff rmol st =
     (let mol_name = GetTitle rmol;
          n = NumConfs rmol;
          (found, mols_query) = scan_query mol_name (fst st);
          e = dict_get (snd st) mol_name
      in case found of
           None \<Rightarrow>
             (let e' = e\<lparr>indices := indices e @ [replicate n (Some (- 2))],
                        energies := energies e @ [replicate n NaN],
                        ref_nconfs := ref_nconfs e @ [n]\<rparr>
              in case read_mols (sdfile ff_dict) of
                   Inl err \<Rightarrow> Inl err
                 | Inr fresh \<Rightarrow> Inr (fresh, dict_set mol_name e' (snd st)))
         | Some qmol \<Rightarrow>
             (case map_float float (get_sd_list qmol (sdtag ff_dict)) of
                Inl err \<Rightarrow> Inl err
              | Inr enes \<Rightarrow>
                  if sdfile ff_dict = sdf_ref
                  then Inr (mols_query,
                            dict_set mol_name
                              (e\<lparr>energies := energies e @ [enes],
                                 indices := indices e @ [replicate n (Some (- 1))]\<rparr>) (snd st))
                  else (case compare_two_mols OERMSD rmol qmol rmsd_cutoff of
                          Inl err \<Rightarrow> Inl err
                        | Inr molIndices \<Rightarrow>
                            Inr (mols_query,
                                 dict_set mol_name
                                   (e\<lparr>energies := energies e @ [enes],
                                      indices := indices e @ [molIndices]\<rparr>) (snd st)))))"

fun match_rmols ::
  "(string \<Rightarrow> pyerr + 'g oemol list) \<Rightarrow> (string \<Rightarrow> pyfloat option) \<Rightarrow> ('g \<Rightarrow> 'g \<Rightarrow> real)
     \<Rightarrow> string \<Rightarrow> ff_method \<Rightarrow> real \<Rightarrow> 'g oemol list \<Rightarrow> 'g oemol list \<times> mol_dict
     \<Rightarrow> pyerr + ('g oemol list \<times> mol_dict)" where
  "match_rmols read_mols float OERMSD sdf_ref ff_dict rmsd_cutoff [] st = Inr st"
| "match_rmols read_mols float OERMSD sdf_ref ff_dict rmsd_cutoff (rmol # mols_ref) st =
     (case match_rmol read_mols float OERMSD sdf_ref ff_dict rmsd_cutoff rmol st of
        Inl err \<Rightarrow> Inl err
      | Inr st' \<Rightarrow> match_rmols read_mols float OERMSD sdf_ref ff_dict rmsd_cutoff mols_ref st')"

text \<open>The loop over the methods: both files are opened anew for every method.\<close>

fun match_methods ::
  "(string \<Rightarrow> pyerr + 'g oemol list) \<Rightarrow> (string \<Rightarrow> pyfloat option) \<Rightarrow> ('g \<Rightarrow> 'g \<Rightarrow> real)
     \<Rightarrow> string \<Rightarrow> real \<Rightarrow> ff_method list \<Rightarrow> mol_dict \<Rightarrow> pyerr + mol_dict" where
  "match_methods read_mols float OERMSD sdf_ref rmsd_cutoff [] mol_dict = Inr mol_dict"
| "match_methods read_mols float OERMSD sdf_ref rmsd_cutoff (ff_dict # rest) mol_dict =
     (case read_mols sdf_ref of
        Inl err \<Rightarrow> Inl err
      | Inr mols_ref \<Rightarrow>
          (case read_mols (sdfile ff_dict) of
             Inl err \<Rightarrow> Inl err
           | Inr mols_query \<Rightarrow>
               (case match_rmols read_mols float OERMSD sdf_ref ff_dict rmsd_cutoff mols_ref
                       (mols_query, mol_dict) of
                  Inl err \<Rightarrow> Inl err
                | Inr st \<Rightarrow>
                    match_methods read_mols float OERMSD sdf_ref rmsd_cutoff rest (snd st))))"

definition match_minima ::
  "(string \<Rightarrow> pyerr + 'g oemol list) \<Rightarrow> (string \<Rightarrow> pyfloat option) \<Rightarrow> ('g \<Rightarrow> 'g \<Rightarrow> real)
     \<Rightarrow> ff_method list \<Rightarrow> real \<Rightarrow> pyerr + mol_dict" where
  "match_minima read_mols float OERMSD in_dict rmsd_cutoff =
     (case in_dict of
        [] \<Rightarrow> Inl IndexError
      | ref # _ \<Rightarrow> match_methods read_mols float OERMSD (sdfile ref) rmsd_cutoff in_dict [])"

subsection \<open>\<open>extract_matches\<close>\<close>

text \<open>
  One entry \<open>conf_index\<close> at position \<open>j\<close> of the index list of file \<open>i\<close>; the branches in
  the order of the source:
  \<^verbatim>\<open>
  if conf_index is None:              fileData.append(np.nan)
  elif conf_index == -2:              fileData.append(np.nan)
  elif len(energy_array[i]) == 0:     fileData.append(np.nan)
  elif conf_index == -1:              fileData.append(float(energy_array[i][j]))
  else:                               fileData.append(float(energy_array[i][conf_index]))
  \<close>
\<close>

definition extract_conf :: "pyfloat list list \<Rightarrow> nat \<Rightarrow> nat \<Rightarrow> int option \<Rightarrow> pyerr + pyfloat" where
  "extract_conf energy_array i j conf_index =
     (case conf_index of
        None \<Rightarrow> Inr NaN
      | Some c \<Rightarrow>
          if c = - 2 then Inr NaN
          else (case py_get energy_array (int i) of
                  Inl e \<Rightarrow> Inl e
                | Inr raw \<Rightarrow>
                    if length raw = 0 then Inr NaN
                    else if c = - 1 then py_get raw (int j)
                    else py_get raw c))"

definition extract_file :: "pyfloat list list \<Rightarrow> nat \<Rightarrow> int option list \<Rightarrow> pyerr + pyfloat list" where
  "extract_file energy_array i file_indices =
     sequence_res (map (\<lambda>j. extract_conf energy_array i j (file_indices ! j))
                       [0..<length file_indices])"

definition extract_mol :: "mol_entry \<Rightarrow> pyerr + pyfloat list list" where
  "extract_mol e =
     sequence_res (map (\<lambda>i. extract_file (energies e) i (indices e ! i))
                       [0..<length (indices e)])"

text \<open>\<open>extract_matches\<close> stores the result of every molecule under the new key
  \<open>energies_matched\<close>; the model returns these values in the order of the dictionary.\<close>

definition extract_matches :: "mol_dict \<Rightarrow> pyerr + (string \<times> pyfloat list list) list" where
  "extract_matches mol_dict =
     sequence_res (map (\<lambda>(m, e). case extract_mol e of
                                     Inl err \<Rightarrow> Inl err
                                   | Inr updated \<Rightarrow> Inr (m, updated)) mol_dict)"

subsection \<open>\<open>calc_rel_ene\<close>\<close>

text \<open>\<open>[file_enes[j] for file_enes in mol_array]\<close> and the number of its NaN entries.\<close>

definition column :: "pyfloat list list \<Rightarrow> nat \<Rightarrow> pyerr + pyfloat list" where
  "column mol_array j = sequence_res (map (\<lambda>file_enes. py_get file_enes (int j)) mol_array)"

definition nan_count :: "pyfloat list list \<Rightarrow> nat \<Rightarrow> pyerr + nat" where
  "nan_count mol_array j =
     (case column mol_array j of
        Inl e \<Rightarrow> Inl e
      | Inr col \<Rightarrow> Inr (length (filter isnan col)))"

text \<open>\<open>np.where(np.asarray(nan_cnt) == cnt)[0]\<close>\<close>

definition np_where_eq :: "nat list \<Rightarrow> nat \<Rightarrow> nat list" where
  "np_where_eq nan_cnt cnt = filter (\<lambda>j. nan_cnt ! j = cnt) [0..<length nan_cnt]"

text \<open>
  \<^verbatim>\<open>
  while no_nan_conf_inds.size == 0 and cnt < ref_nconfs:
      no_nan_conf_inds = np.where(np.asarray(nan_cnt) == cnt)[0]
      cnt += 1
  \<close>
\<close>

function scan_thresholds :: "nat list \<Rightarrow> nat \<Rightarrow> nat list \<Rightarrow> nat \<Rightarrow> nat list" where
  "scan_thresholds nan_cnt ref_n no_nan_conf_inds cnt =
     (if no_nan_conf_inds = [] \<and> cnt < ref_n
      then scan_thresholds nan_cnt ref_n (np_where_eq nan_cnt cnt) (cnt + 1)
      else no_nan_conf_inds)"
  by pat_completeness auto
termination
  by (relation "measure (\<lambda>(nan_cnt, ref_n, inds, cnt). ref_n - cnt)") auto

text \<open>\<open>np.argmin\<close> on a one-dimensional array of floats: the position of the first NaN when
  there is one, the first position of the least value otherwise; \<open>ValueError\<close> on an
  empty array.\<close>

fun fle :: "pyfloat \<Rightarrow> pyfloat \<Rightarrow> bool" where
  "fle (Fin x) (Fin y) = (x \<le> y)"
| "fle _ _ = False"

definition np_argmin :: "pyfloat list \<Rightarrow> pyerr + nat" where
  "np_argmin a =
     (if a = [] then Inl ValueError
      else case filter (\<lambda>i. isnan (a ! i)) [0..<length a] of
             i # _ \<Rightarrow> Inr i
           | [] \<Rightarrow> (case filter (\<lambda>i. list_all (fle (a ! i)) a) [0..<length a] of
                      i # _ \<Rightarrow> Inr i
                    | [] \<Rightarrow> Inl ValueError))"

text \<open>\<open>nan_cnt.index(min(nan_cnt))\<close>; \<open>min\<close> of an empty list raises \<open>ValueError\<close>.\<close>

definition index_of_min :: "nat list \<Rightarrow> pyerr + nat" where
  "index_of_min nan_cnt =
     (if nan_cnt = [] then Inl ValueError
      else case filter (\<lambda>j. nan_cnt ! j = min_list nan_cnt) [0..<length nan_cnt] of
             j # _ \<Rightarrow> Inr j
           | [] \<Rightarrow> Inl ValueError)"

text \<open>The body of the first loop of \<open>calc_rel_ene\<close>: the reference conformer of one
  molecule. \<open>np.take(mol_array[0], no_nan_conf_inds)\<close> reads positions below
  \<open>len(nan_cnt) = len(mol_array[0])\<close> only.\<close>

definition lowest_conf :: "pyfloat list list \<Rightarrow> pyerr + nat" where
  "lowest_conf mol_array =
     (case py_get mol_array 0 of
        Inl e \<Rightarrow> Inl e
      | Inr ref_row \<Rightarrow>
          (case sequence_res (map (nan_count mol_array) [0..<length ref_row]) of
             Inl e \<Rightarrow> Inl e
           | Inr nan_cnt \<Rightarrow>
               (let no_nan_conf_inds = scan_thresholds nan_cnt (length ref_row) [] 0
                in if no_nan_conf_inds \<noteq> []
                   then (case np_argmin (map (\<lambda>j. ref_row ! j) no_nan_conf_inds) of
                           Inl e \<Rightarrow> Inl e
                         | Inr k \<Rightarrow> Inr (no_nan_conf_inds ! k))
                   else index_of_min nan_cnt)))"

text \<open>\<open>[(fileE[i] - fileE[z]) for i in range(len(fileE))]\<close>\<close>

definition rel_row :: "nat \<Rightarrow> pyfloat list \<Rightarrow> pyerr + pyfloat list" where
  "rel_row z fileE =
     sequence_res (map (\<lambda>i. case py_get fileE (int z) of
                               Inl e \<Rightarrow> Inl e
                             | Inr ez \<Rightarrow> Inr (fsub (fileE ! i) ez)) [0..<length fileE])"

definition rel_mol :: "nat \<Rightarrow> pyfloat list list \<Rightarrow> pyerr + pyfloat list list" where
  "rel_mol z molE = sequence_res (map (rel_row z) molE)"

definition calc_rel_ene ::
  "pyfloat list list list \<Rightarrow> pyerr + (pyfloat list list list \<times> nat list)" where
  "calc_rel_ene matched_enes =
     (case sequence_res (map lowest_conf matched_enes) of
        Inl e \<Rightarrow> Inl e
      | Inr lowest_conf_indices \<Rightarrow>
          (case sequence_res (map (\<lambda>(z, molE). rel_mol z molE)
                                  (zip lowest_conf_indices matched_enes)) of
             Inl e \<Rightarrow> Inl e
           | Inr rel_energies \<Rightarrow> Inr (rel_energies, lowest_conf_indices)))"

subsection \<open>\<open>calc_rms_error\<close>\<close>

text \<open>\<open>np.asarray(a) - np.asarray(b)\<close> on one-dimensional arrays: elementwise on equal
  lengths, an array of length one is broadcast, any other pair of lengths raises
  \<open>ValueError\<close>.\<close>

definition np_sub :: "pyfloat list \<Rightarrow> pyfloat list \<Rightarrow> pyerr + pyfloat list" where
  "np_sub a b =
     (if length a = length b then Inr (map (\<lambda>(x, y). fsub x y) (zip a b))
      else if length a = 1 then Inr (map (\<lambda>y. fsub (a ! 0) y) b)
      else if length b = 1 then Inr (map (\<lambda>x. fsub x (b ! 0)) a)
      else Inl ValueError)"

text \<open>\<open>np.delete(sqrs, z)\<close> for an index \<open>z \<ge> 0\<close>\<close>

definition np_delete :: "'a list \<Rightarrow> nat \<Rightarrow> pyerr + 'a list" where
  "np_delete a z = (if z < length a then Inr (take z a @ drop (Suc z) a) else Inl IndexError)"

fun fadd :: "pyfloat \<Rightarrow> pyfloat \<Rightarrow> pyfloat" where
  "fadd (Fin x) (Fin y) = Fin (x + y)"
| "fadd _ _ = NaN"

fun fdiv_nat :: "pyfloat \<Rightarrow> nat \<Rightarrow> pyfloat" where
  "fdiv_nat (Fin x) n = Fin (x / real n)"
| "fdiv_nat NaN n = NaN"

text \<open>\<open>np.mean\<close>: the sum over the number of entries; NaN on an empty array.\<close>

definition np_mean :: "pyfloat list \<Rightarrow> pyfloat" where
  "np_mean a = (if a = [] then NaN else fdiv_nat (foldl fadd (Fin 0) a) (length a))"

text \<open>The body of the inner loop: the RMS error of file \<open>filelist\<close> of molecule \<open>i\<close>.
  \<^verbatim>\<open>
  errs = np.asarray(filelist) - np.asarray(mol_array[0])
  sqrs = errs**2.
  sqrs = np.delete(sqrs, lowest_conf_indices[i])
  sqrs = sqrs[~np.isnan(sqrs)]
  mse = np.mean(sqrs)
  rmse = np.sqrt(mse)
  \<close>
\<close>

definition rms_file :: "pyfloat list \<Rightarrow> pyfloat list \<Rightarrow> nat list \<Rightarrow> nat \<Rightarrow> pyerr + pyfloat" where
  "rms_file filelist ref_list lowest_conf_indices i =
     (case np_sub filelist ref_list of
        Inl e \<Rightarrow> Inl e
      | Inr errs \<Rightarrow>
          (case py_get lowest_conf_indices (int i) of
             Inl e \<Rightarrow> Inl e
           | Inr z \<Rightarrow>
               (case np_delete (map fsquare errs) z of
                  Inl e \<Rightarrow> Inl e
                | Inr sqrs \<Rightarrow> Inr (fsqrt (np_mean (filter (\<lambda>x. \<not> isnan x) sqrs))))))"

definition rms_mol :: "pyfloat list list \<Rightarrow> nat list \<Rightarrow> nat \<Rightarrow> pyerr + pyfloat list" where
  "rms_mol mol_array lowest_conf_indices i =
     sequence_res (map (\<lambda>filelist. case py_get mol_array 0 of
                                     Inl e \<Rightarrow> Inl e
                                   | Inr ref_list \<Rightarrow>
                                       rms_file filelist ref_list lowest_conf_indices i)
                       mol_array)"

definition calc_rms_error :: "pyfloat list list list \<Rightarrow> nat list \<Rightarrow> pyerr + pyfloat list list" where
  "calc_rms_error rel_energies lowest_conf_indices =
     sequence_res (map (\<lambda>i. rms_mol (rel_energies ! i) lowest_conf_indices i)
                       [0..<length rel_energies])"

subsection \<open>The match outcomes of the specification\<close>

text \<open>The specification reads an entry of an index list as one of four outcomes;
  \<open>encode\<close> gives the value the code stores for each. \<open>resolve\<close> is the table of the
  specification for the resolver; the row "raw energy sequence empty despite a match"
  comes before the rows of \<open>SelfReference\<close> and \<open>Matched\<close>.\<close>

datatype match_outcome = Matched nat | SelfReference | MoleculeAbsent | NoMatchWithinCutoff

fun encode :: "match_outcome \<Rightarrow> int option" where
  "encode (Matched idx) = Some (int idx)"
| "encode SelfReference = Some (- 1)"
| "encode MoleculeAbsent = Some (- 2)"
| "encode NoMatchWithinCutoff = None"

fun resolve_entry :: "pyfloat list \<Rightarrow> nat \<Rightarrow> match_outcome \<Rightarrow> pyfloat" where
  "resolve_entry rawEnergies j NoMatchWithinCutoff = NaN"
| "resolve_entry rawEnergies j MoleculeAbsent = NaN"
| "resolve_entry rawEnergies j SelfReference = (if rawEnergies = [] then NaN else rawEnergies ! j)"
| "resolve_entry rawEnergies j (Matched idx) = (if rawEnergies = [] then NaN else rawEnergies ! idx)"

definition resolve :: "match_outcome list \<Rightarrow> pyfloat list \<Rightarrow> pyfloat list" where
  "resolve indexMapping rawEnergies =
     map (\<lambda>j. resolve_entry rawEnergies j (indexMapping ! j)) [0..<length indexMapping]"

text \<open>Every position that the table reads in a non-empty raw energy sequence exists.\<close>

fun entry_in_range :: "pyfloat list \<Rightarrow> nat \<Rightarrow> match_outcome \<Rightarrow> bool" where
  "entry_in_range rawEnergies j SelfReference = (rawEnergies = [] \<or> j < length rawEnergies)"
| "entry_in_range rawEnergies j (Matched idx) = (rawEnergies = [] \<or> idx < length rawEnergies)"
| "entry_in_range rawEnergies j _ = True"

definition in_range :: "match_outcome list \<Rightarrow> pyfloat list \<Rightarrow> bool" where
  "in_range indexMapping rawEnergies =
     list_all (\<lambda>j. entry_in_range rawEnergies j (indexMapping ! j)) [0..<length indexMapping]"

subsection \<open>The RMS error of the specification\<close>

text \<open>The positions \<open>j \<noteq> z\<close> at which neither relative energy is missing, and the
  population RMS over them: the square root of the mean (sum over the number of included
  positions) of the squared differences, the missing marker when no position is
  included.\<close>

fun fval :: "pyfloat \<Rightarrow> real" where
  "fval (Fin x) = x"
| "fval NaN = 0"

definition included :: "pyfloat list \<Rightarrow> pyfloat list \<Rightarrow> nat \<Rightarrow> nat list" where
  "included rel_method rel_reference z =
     filter (\<lambda>j. j \<noteq> z \<and> \<not> isnan (rel_method ! j) \<and> \<not> isnan (rel_reference ! j))
            [0..<length rel_reference]"

definition rms_spec :: "pyfloat list \<Rightarrow> pyfloat list \<Rightarrow> nat \<Rightarrow> pyfloat" where
  "rms_spec rel_method rel_reference z =
     (let J = included rel_method rel_reference z
      in if J = [] then NaN
         else Fin (sqrt ((\<Sum>j\<leftarrow>J. (fval (rel_method ! j) - fval (rel_reference ! j))\<^sup>2)
                          / real (length J))))"

subsection \<open>Shapes of the tables\<close>

text \<open>The tables \<open>calc_rel_ene\<close> hands to \<open>calc_rms_error\<close>: one reference index per
  molecule, every molecule with at least one row, every row as long as the reference
  row, the reference index a position of it.\<close>

definition rectangular :: "pyfloat list list list \<Rightarrow> nat list \<Rightarrow> bool" where
  "rectangular rel zs \<longleftrightarrow> length zs = length rel \<and>
     list_all (\<lambda>i. rel ! i \<noteq> [] \<and> zs ! i < length (rel ! i ! 0) \<and>
                   list_all (\<lambda>row. length row = length (rel ! i ! 0)) (rel ! i)) [0..<length rel]"

text \<open>The tables \<open>extract_matches\<close> hands to \<open>calc_rel_ene\<close>: every molecule has at least
  one row, its reference row is not empty and every row is as long as the reference
  row.\<close>

definition well_shaped_mol :: "pyfloat list list \<Rightarrow> bool" where
  "well_shaped_mol mol_array =
     (case mol_array of
        [] \<Rightarrow> False
      | ref_row # _ \<Rightarrow> ref_row \<noteq> [] \<and> list_all (\<lambda>row. length row = length ref_row) mol_array)"

definition well_shaped :: "pyfloat list list list \<Rightarrow> bool" where
  "well_shaped matched_enes = list_all well_shaped_mol matched_enes"

subsection \<open>The reference conformer of the specification\<close>

text \<open>The number of methods whose matched energy at position \<open>j\<close> is missing.\<close>

definition missing_count :: "pyfloat list list \<Rightarrow> nat \<Rightarrow> nat" where
  "missing_count mol_array j = length (filter (\<lambda>row. isnan (row ! j)) mol_array)"

text \<open>The candidate positions of the specification: the positions whose missing count
  is the first \<open>t\<close> among \<open>0, 1, \<dots>, referenceConformerCount - 1\<close> for which there is such a
  position; no position when every scanned \<open>t\<close> has none.\<close>

definition positions_with :: "pyfloat list list \<Rightarrow> nat \<Rightarrow> nat list" where
  "positions_with mol_array t =
     filter (\<lambda>j. missing_count mol_array j = t) [0..<length (mol_array ! 0)]"

definition candidates :: "pyfloat list list \<Rightarrow> nat list" where
  "candidates mol_array =
     (case filter (\<lambda>t. positions_with mol_array t \<noteq> []) [0..<length (mol_array ! 0)] of
        [] \<Rightarrow> []
      | t # _ \<Rightarrow> positions_with mol_array t)"

subsection \<open>Invariant and precondition of the orchestrator\<close>

text \<open>Every index list stored under a title has as many entries as some reference
  molecule of that title has conformers.\<close>

definition index_lengths_ok :: "'g oemol list \<Rightarrow> mol_dict \<Rightarrow> bool" where
  "index_lengths_ok mols_ref d \<longleftrightarrow>
     (\<forall>(t, e) \<in> set d. \<forall>idxs \<in> set (indices e).
         \<exists>rmol \<in> set mols_ref. GetTitle rmol = t \<and> length idxs = NumConfs rmol)"

text \<open>What the orchestrator needs of its inputs to return: every file of the
  configuration can be read, every molecule of such a file has a conformer, and every
  value under the energy tag is accepted by \<open>float\<close>.\<close>

definition readable :: "(string \<Rightarrow> pyerr + 'g oemol list) \<Rightarrow> (string \<Rightarrow> pyfloat option)
     \<Rightarrow> ff_method \<Rightarrow> 'g oemol list \<Rightarrow> bool" where
  "readable read_mols float ff_dict mols \<longleftrightarrow>
     read_mols (sdfile ff_dict) = Inr mols \<and>
     (\<forall>q \<in> set mols. GetConfs q \<noteq> [] \<and>
        (\<forall>s \<in> set (get_sd_list q (sdtag ff_dict)). float s \<noteq> None))"

text \<open>The lengths of the index lists stored under a title, in the order in which they
  were stored, and the conformer counts of the reference molecules of a title, in the
  order of the reference file.\<close>

definition stored_lengths :: "mol_dict \<Rightarrow> string \<Rightarrow> nat list" where
  "stored_lengths d t = map length (indices (dict_get d t))"

definition ref_counts :: "'g oemol list \<Rightarrow> string \<Rightarrow> nat list" where
  "ref_counts mols_ref t = map NumConfs (filter (\<lambda>rmol. GetTitle rmol = t) mols_ref)"

subsection \<open>Example inputs\<close>

definition ex_conf :: "real \<Rightarrow> real conf" where
  "ex_conf x = \<lparr>geometry = x, OEGetSDDataPairs = []\<rparr>"

definition ex_rmol :: "real oemol" where
  "ex_rmol = \<lparr>GetTitle = ''mol'', GetConfs = [ex_conf 0, ex_conf 5]\<rparr>"

definition ex_qmol :: "real oemol" where
  "ex_qmol = \<lparr>GetTitle = ''mol'', GetConfs = [ex_conf 3, ex_conf 0, ex_conf 0]\<rparr>"

definition ex_nomol :: "real oemol" where
  "ex_nomol = \<lparr>GetTitle = ''mol'', GetConfs = []\<rparr>"

definition ex_rmsd :: "real \<Rightarrow> real \<Rightarrow> real" where
  "ex_rmsd x y = \<bar>x - y\<bar>"

text \<open>Two files with the same two molecules in opposite order, each molecule with one
  conformer that carries its energy under the tag \<open>QM Energy\<close>.\<close>

definition ex_tagged :: "real \<Rightarrow> string \<Rightarrow> real conf" where
  "ex_tagged x v = \<lparr>geometry = x, OEGetSDDataPairs = [(''Method'', ''b3lyp''), (''QM Energy'', v)]\<rparr>"

definition ex_molA :: "real oemol" where
  "ex_molA = \<lparr>GetTitle = ''A'', GetConfs = [ex_tagged 0 ''1.0'']\<rparr>"

definition ex_molB :: "real oemol" where
  "ex_molB = \<lparr>GetTitle = ''B'', GetConfs = [ex_tagged 0 ''2.0'']\<rparr>"

definition ex_read_mols :: "string \<Rightarrow> pyerr + real oemol list" where
  "ex_read_mols f =
     (if f = ''ref.sdf'' then Inr [ex_molA, ex_molB]
      else if f = ''query.sdf'' then Inr [ex_molB, ex_molA]
      else Inl FileNotFoundError)"

definition ex_float :: "string \<Rightarrow> pyfloat option" where
  "ex_float s =
     (if s = ''1.0'' then Some (Fin 1) else if s = ''2.0'' then Some (Fin 2) else None)"

definition ex_in_dict :: "ff_method list" where
  "ex_in_dict =
     [\<lparr>ff_label = ''ref'', sdfile = ''ref.sdf'', sdtag = ''qm energy''\<rparr>,
      \<lparr>ff_label = ''query'', sdfile = ''query.sdf'', sdtag = ''qm energy''\<rparr>]"

text \<open>A molecule with two conformers of which only the second carries the energy tag.\<close>

definition ex_untagged_first :: "real oemol" where
  "ex_untagged_first =
     \<lparr>GetTitle = ''C'',
      GetConfs = [\<lparr>geometry = 0, OEGetSDDataPairs = [(''Method'', ''b3lyp'')]\<rparr>,
                  ex_tagged 1 ''2.0'']\<rparr>"

section \<open>Properties\<close>

subsection \<open>The geometry matcher\<close>

lemma filter_upt_hd:
  assumes "filter P [0..<n] = i # rest"
  shows "i < n \<and> P i \<and> (\<forall>j<i. \<not> P j)"
proof -
  from assms obtain us vs where d: "[0..<n] = us @ i # vs" and nu: "\<forall>u\<in>set us. \<not> P u" and pi: "P i"
    by (auto simp: filter_eq_Cons_iff)
  have "i \<in> set [0..<n]" using d by simp
  then have iltn: "i < n" by simp
  have "sorted (us @ i # vs)" using d sorted_upt[of 0 n] by simp
  then have vs: "\<forall>v\<in>set vs. i \<le> v" by (simp add: sorted_append)
  have "\<forall>j<i. \<not> P j"
  proof (intro allI impI)
    fix j assume "j < i"
    then have "j \<in> set [0..<n]" using iltn by simp
    then have "j \<in> set (us @ i # vs)" unfolding d .
    then have "j \<in> set us \<or> j = i \<or> j \<in> set vs" by auto
    with \<open>j < i\<close> vs have "j \<in> set us" by auto
    with nu show "\<not> P j" by blast
  qed
  with iltn pi show ?thesis by blast
qed

lemma lowest_rmsd_index_nonempty:
  assumes "ds \<noteq> []"
  shows "\<exists>i. lowest_rmsd_index ds = Inr i \<and> i < length ds \<and> ds ! i = Min (set ds)
             \<and> (\<forall>j<i. ds ! j \<noteq> Min (set ds))"
proof -
  have m: "min_list ds = Min (set ds)" using assms by (rule min_list_Min)
  have "Min (set ds) \<in> set ds" using assms by (intro Min_in) auto
  then obtain k where k: "k < length ds" "ds ! k = Min (set ds)" by (auto simp: in_set_conv_nth)
  then have "k \<in> set (filter (\<lambda>i. ds ! i = min_list ds) [0..<length ds])" using m by simp
  then obtain i rest where f: "filter (\<lambda>i. ds ! i = min_list ds) [0..<length ds] = i # rest"
    by (cases "filter (\<lambda>i. ds ! i = min_list ds) [0..<length ds]") auto
  from filter_upt_hd[OF f] m have "i < length ds \<and> ds ! i = Min (set ds) \<and> (\<forall>j<i. ds ! j \<noteq> Min (set ds))"
    by simp
  moreover have "lowest_rmsd_index ds = Inr i" using f by (simp add: lowest_rmsd_index_def)
  ultimately show ?thesis by blast
qed

lemma lowest_rmsd_index_empty: "lowest_rmsd_index [] = Inl IndexError"
  by (simp add: lowest_rmsd_index_def)

lemma match_ref_conf_total:
  assumes "ds \<noteq> []"
  shows "\<exists>m. match_ref_conf ds c = Inr m"
proof -
  from lowest_rmsd_index_nonempty[OF assms] obtain i where "lowest_rmsd_index ds = Inr i" by blast
  then show ?thesis by (simp add: match_ref_conf_def)
qed

lemma compare_loop_ok:
  assumes "qconfs \<noteq> []"
  shows "\<exists>out. compare_loop OERMSD rconfs qconfs c acc = Inr (acc @ out) \<and> length out = length rconfs \<and>
     (\<forall>k<length rconfs. 
        match_ref_conf (map (\<lambda>q. OERMSD (geometry (rconfs ! k)) (geometry q)) qconfs) c = Inr (out ! k))"
proof (induction rconfs arbitrary: acc)
  case Nil
  then show ?case by simp
next
  case (Cons r rs)
  let ?ds = "map (\<lambda>q. OERMSD (geometry r) (geometry q)) qconfs"
  have "?ds \<noteq> []" using assms by simp
  from match_ref_conf_total[OF this] obtain m where m: "match_ref_conf ?ds c = Inr m"
    by blast
  from Cons.IH[of "acc @ [m]"] obtain out where
    o: "compare_loop OERMSD rs qconfs c (acc @ [m]) = Inr ((acc @ [m]) @ out)" "length out = length rs"
     "\<forall>k<length rs. match_ref_conf (map (\<lambda>q. OERMSD (geometry (rs ! k)) (geometry q)) qconfs) c = Inr (out ! k)"
    by blast
  have "compare_loop OERMSD (r # rs) qconfs c acc = Inr (acc @ (m # out))" using m o(1) by simp
  moreover have "length (m # out) = length (r # rs)" using o(2) by simp
  moreover have "\<forall>k<length (r # rs). match_ref_conf (map (\<lambda>q. OERMSD (geometry ((r # rs) ! k)) (geometry q)) qconfs) c = Inr ((m # out) ! k)"
    using m o(3) by (auto simp: nth_Cons split: nat.splits)
  ultimately show ?case by blast
qed

lemma match_ref_conf_spec:
  assumes "ds \<noteq> []"
  shows "\<exists>m. match_ref_conf ds c = Inr m \<and> (m = None \<longleftrightarrow> c < Min (set ds)) \<and>
     (m \<noteq> None \<longrightarrow> (\<exists>i<length ds. m = Some (int i) \<and> ds ! i = Min (set ds)
                            \<and> (\<forall>j<i. ds ! j \<noteq> Min (set ds))))"
proof -
  from lowest_rmsd_index_nonempty[OF assms] obtain i where
    i: "lowest_rmsd_index ds = Inr i" "i < length ds" "ds ! i = Min (set ds)"
       "\<forall>j<i. ds ! j \<noteq> Min (set ds)" by blast
  show ?thesis
  proof (cases "ds ! i \<le> c")
    case True
    then have "match_ref_conf ds c = Inr (Some (int i))" using i(1) by (simp add: match_ref_conf_def)
    then show ?thesis using i True by auto
  next
    case False
    then have "match_ref_conf ds c = Inr None" using i(1) by (simp add: match_ref_conf_def)
    then show ?thesis using i False by auto
  qed
qed

lemma zero_cutoff_iff:
  assumes "ds \<noteq> []" and "\<forall>d\<in>set ds. (0::real) \<le> d"
  shows "Min (set ds) \<le> 0 \<longleftrightarrow> 0 \<in> set ds"
proof
  assume le: "Min (set ds) \<le> 0"
  have m: "Min (set ds) \<in> set ds" using assms(1) by (intro Min_in) auto
  from m assms(2) have "0 \<le> Min (set ds)" by blast
  with le have "Min (set ds) = 0" by (rule order_antisym)
  with m show "0 \<in> set ds" by simp
next
  assume "0 \<in> set ds"
  then show "Min (set ds) \<le> 0" by (intro Min_le) auto
qed

text \<open>
  Claim C3. For a query molecule with at least one conformer, \<open>compare_two_mols\<close> returns
  one entry per reference conformer. The entry of reference conformer \<open>k\<close> is \<open>None\<close>
  exactly when the least distance from \<open>k\<close> to a query conformer is strictly above the
  cutoff, so that a distance equal to the cutoff is accepted; otherwise it is the lowest
  query index at which the least distance is attained, which lies in \<open>[0, N)\<close>. With
  cutoff 0 and distances that are not negative, the entry is an index exactly when some
  query conformer is at distance 0.
\<close>

theorem compare_two_mols_spec:
  assumes "GetConfs qmol \<noteq> []"
  shows "\<exists>out. compare_two_mols OERMSD rmol qmol cutoff = Inr out \<and> length out = NumConfs rmol \<and>
     (\<forall>k<NumConfs rmol.
        (out ! k = None \<longleftrightarrow> cutoff < Min (set (distances OERMSD rmol qmol k))) \<and>
        (out ! k \<noteq> None \<longrightarrow>
           (\<exists>i<NumConfs qmol. out ! k = Some (int i)
              \<and> distances OERMSD rmol qmol k ! i = Min (set (distances OERMSD rmol qmol k))
              \<and> (\<forall>j<i. distances OERMSD rmol qmol k ! j \<noteq> Min (set (distances OERMSD rmol qmol k))))) \<and>
        (cutoff = 0 \<and> (\<forall>d\<in>set (distances OERMSD rmol qmol k). 0 \<le> d) \<longrightarrow>
           (out ! k \<noteq> None \<longleftrightarrow> 0 \<in> set (distances OERMSD rmol qmol k))))"
proof -
  from compare_loop_ok[OF assms, of OERMSD "GetConfs rmol" cutoff "[]"] obtain out where
    o: "compare_two_mols OERMSD rmol qmol cutoff = Inr out" "length out = NumConfs rmol"
       "\<forall>k<NumConfs rmol. match_ref_conf (distances OERMSD rmol qmol k) cutoff = Inr (out ! k)"
    by (auto simp: compare_two_mols_def NumConfs_def distances_def)
  have "\<forall>k<NumConfs rmol.
        (out ! k = None \<longleftrightarrow> cutoff < Min (set (distances OERMSD rmol qmol k))) \<and>
        (out ! k \<noteq> None \<longrightarrow>
           (\<exists>i<NumConfs qmol. out ! k = Some (int i)
              \<and> distances OERMSD rmol qmol k ! i = Min (set (distances OERMSD rmol qmol k))
              \<and> (\<forall>j<i. distances OERMSD rmol qmol k ! j \<noteq> Min (set (distances OERMSD rmol qmol k))))) \<and>
        (cutoff = 0 \<and> (\<forall>d\<in>set (distances OERMSD rmol qmol k). 0 \<le> d) \<longrightarrow>
           (out ! k \<noteq> None \<longleftrightarrow> 0 \<in> set (distances OERMSD rmol qmol k)))"
  proof (intro allI impI)
    fix k assume k: "k < NumConfs rmol"
    let ?ds = "distances OERMSD rmol qmol k"
    have ne: "?ds \<noteq> []" using assms by (simp add: distances_def)
    have len: "length ?ds = NumConfs qmol" by (simp add: distances_def NumConfs_def)
    from match_ref_conf_spec[OF ne, of cutoff] o(3) k len
    have a: "(out ! k = None \<longleftrightarrow> cutoff < Min (set ?ds)) \<and>
        (out ! k \<noteq> None \<longrightarrow>
           (\<exists>i<NumConfs qmol. out ! k = Some (int i)
              \<and> ?ds ! i = Min (set ?ds)
              \<and> (\<forall>j<i. ?ds ! j \<noteq> Min (set ?ds))))" by auto
    have b: "out ! k \<noteq> None \<longleftrightarrow> 0 \<in> set ?ds"
      if "cutoff = 0 \<and> (\<forall>d\<in>set ?ds. 0 \<le> d)"
    proof -
      from that have c: "cutoff = 0" and nn: "\<forall>d\<in>set ?ds. 0 \<le> d" by simp_all
      from a c have "out ! k \<noteq> None \<longleftrightarrow> Min (set ?ds) \<le> 0" by auto
      with zero_cutoff_iff[OF ne nn] show ?thesis by simp
    qed
    from a b
    show "(out ! k = None \<longleftrightarrow> cutoff < Min (set ?ds)) \<and>
        (out ! k \<noteq> None \<longrightarrow>
           (\<exists>i<NumConfs qmol. out ! k = Some (int i)
              \<and> ?ds ! i = Min (set ?ds)
              \<and> (\<forall>j<i. ?ds ! j \<noteq> Min (set ?ds)))) \<and>
        (cutoff = 0 \<and> (\<forall>d\<in>set ?ds. 0 \<le> d) \<longrightarrow> (out ! k \<noteq> None \<longleftrightarrow> 0 \<in> set ?ds))"
      by blast
  qed
  with o(1,2) show ?thesis by blast
qed

lemma ex_distances_nonneg: "\<forall>d\<in>set (distances ex_rmsd ex_rmol ex_qmol k). 0 \<le> d"
  by (simp add: distances_def ex_rmsd_def)

theorem compare_two_mols_spec_witness:
  "GetConfs ex_qmol \<noteq> [] \<and>
   (\<exists>out. compare_two_mols ex_rmsd ex_rmol ex_qmol 0 = Inr out \<and> length out = NumConfs ex_rmol \<and>
     (\<forall>k<NumConfs ex_rmol.
        (out ! k = None \<longleftrightarrow> 0 < Min (set (distances ex_rmsd ex_rmol ex_qmol k))) \<and>
        (out ! k \<noteq> None \<longrightarrow>
           (\<exists>i<NumConfs ex_qmol. out ! k = Some (int i)
              \<and> distances ex_rmsd ex_rmol ex_qmol k ! i = Min (set (distances ex_rmsd ex_rmol ex_qmol k))
              \<and> (\<forall>j<i. distances ex_rmsd ex_rmol ex_qmol k ! j \<noteq> Min (set (distances ex_rmsd ex_rmol ex_qmol k))))) \<and>
        (out ! k \<noteq> None \<longleftrightarrow> 0 \<in> set (distances ex_rmsd ex_rmol ex_qmol k))))"
proof -
  have h: "GetConfs ex_qmol \<noteq> []" by (simp add: ex_qmol_def)
  from compare_two_mols_spec[OF h, of ex_rmsd ex_rmol 0] h ex_distances_nonneg
  show ?thesis by simp
qed

text \<open>The example: reference conformers at 0 and 5, query conformers at 3, 0 and 0.
  Conformer 0 is matched to the first of the two query conformers at distance 0, with
  cutoff 1/2 and with cutoff 0; conformer 1 has no query conformer within either
  cutoff.\<close>

lemma compare_two_mols_example_zero: "compare_two_mols ex_rmsd ex_rmol ex_qmol 0 = Inr [Some 1, None]"
  by (simp add: compare_two_mols_def ex_rmol_def ex_qmol_def ex_conf_def ex_rmsd_def
      match_ref_conf_def lowest_rmsd_index_def upt_rec)

lemma compare_two_mols_example: "compare_two_mols ex_rmsd ex_rmol ex_qmol (1/2) = Inr [Some 1, None]"
  by (simp add: compare_two_mols_def ex_rmol_def ex_qmol_def ex_conf_def ex_rmsd_def
      match_ref_conf_def lowest_rmsd_index_def upt_rec)

text \<open>
  Claim C10, as stated, says that \<open>compare_two_mols\<close> fails whenever the query molecule has
  no conformer. With a reference molecule that has no conformer either, the loop body
  never runs and the empty list is returned.
\<close>

theorem compare_two_mols_empty_counterexample:
  "compare_two_mols ex_rmsd ex_nomol ex_nomol 0 = Inr []"
  by (simp add: compare_two_mols_def ex_nomol_def)

text \<open>
  Claim C10, amended. When the query molecule has no conformer and the reference molecule
  has at least one, \<open>compare_two_mols\<close> raises (\<open>IndexError\<close>, from taking element 0 of the
  empty list of positions of the least distance) instead of returning \<open>None\<close> for each
  reference conformer; when the query molecule has at least one conformer it returns a
  list with one entry per reference conformer.
\<close>

theorem compare_two_mols_total_iff:
  "(GetConfs qmol = [] \<and> GetConfs rmol \<noteq> [] \<longrightarrow>
      compare_two_mols OERMSD rmol qmol cutoff = Inl IndexError) \<and>
   (GetConfs qmol \<noteq> [] \<longrightarrow>
      (\<exists>out. compare_two_mols OERMSD rmol qmol cutoff = Inr out \<and> length out = NumConfs rmol))"
proof (intro conjI impI)
  assume "GetConfs qmol = [] \<and> GetConfs rmol \<noteq> []"
  then obtain r rs where "GetConfs rmol = r # rs" "GetConfs qmol = []" by (cases "GetConfs rmol") auto
  then show "compare_two_mols OERMSD rmol qmol cutoff = Inl IndexError"
    by (simp add: compare_two_mols_def match_ref_conf_def lowest_rmsd_index_def)
next
  assume "GetConfs qmol \<noteq> []"
  from compare_loop_ok[OF this, of OERMSD "GetConfs rmol" cutoff "[]"]
  show "\<exists>out. compare_two_mols OERMSD rmol qmol cutoff = Inr out \<and> length out = NumConfs rmol"
    by (auto simp: compare_two_mols_def NumConfs_def)
qed

theorem compare_two_mols_total_iff_witness:
  "compare_two_mols ex_rmsd ex_rmol ex_nomol (1/2) = Inl IndexError \<and>
   (\<exists>out. compare_two_mols ex_rmsd ex_rmol ex_qmol (1/2) = Inr out \<and> length out = NumConfs ex_rmol)"
proof -
  have a: "GetConfs ex_nomol = [] \<and> GetConfs ex_rmol \<noteq> []" by (simp add: ex_nomol_def ex_rmol_def)
  have b: "GetConfs ex_qmol \<noteq> []" by (simp add: ex_qmol_def)
  from compare_two_mols_total_iff[of ex_nomol ex_rmol ex_rmsd "1/2"] a
  have 1: "compare_two_mols ex_rmsd ex_rmol ex_nomol (1/2) = Inl IndexError" by blast
  from compare_two_mols_total_iff[of ex_qmol ex_rmol ex_rmsd "1/2"] b
  have 2: "\<exists>out. compare_two_mols ex_rmsd ex_rmol ex_qmol (1/2) = Inr out \<and> length out = NumConfs ex_rmol" by blast
  from 1 2 show ?thesis by blast
qed

subsection \<open>The resolver\<close>

lemma sequence_res_map_Inr:
  "(\<And>x. x \<in> set xs \<Longrightarrow> f x = Inr (g x)) \<Longrightarrow> sequence_res (map f xs) = Inr (map g xs)"
  by (induction xs) auto

lemma py_get_nat: "j < length xs \<Longrightarrow> py_get xs (int j) = Inr (xs ! j)"
  by (simp add: py_get_def)

lemma py_get_nat_out: "length xs \<le> j \<Longrightarrow> py_get xs (int j) = Inl IndexError"
  by (simp add: py_get_def)

lemma extract_conf_resolve:
  assumes "i < length energy_array" "entry_in_range (energy_array ! i) j oc"
  shows "extract_conf energy_array i j (encode oc) = Inr (resolve_entry (energy_array ! i) j oc)"
  using assms by (cases oc) (auto simp: extract_conf_def py_get_nat)

text \<open>
  Claim C6, amended. For an index list that encodes match outcomes and a raw energy
  sequence in which every position read by a \<open>SelfReference\<close> or \<open>Matched\<close> entry exists
  (or which is empty), \<open>extract_matches\<close> produces for that file exactly the list given by
  the five-row table, of the length of the index list.
\<close>

theorem extract_file_table:
  assumes "i < length energy_array" and "in_range indexMapping (energy_array ! i)"
  shows "extract_file energy_array i (map encode indexMapping)
           = Inr (resolve indexMapping (energy_array ! i))
         \<and> length (resolve indexMapping (energy_array ! i)) = length indexMapping"
proof -
  have "\<And>j. j \<in> set [0..<length indexMapping] \<Longrightarrow>
          extract_conf energy_array i j (map encode indexMapping ! j)
            = Inr (resolve_entry (energy_array ! i) j (indexMapping ! j))"
    using assms by (simp add: in_range_def list_all_iff extract_conf_resolve)
  then have "sequence_res (map (\<lambda>j. extract_conf energy_array i j (map encode indexMapping ! j))
                 [0..<length indexMapping])
        = Inr (map (\<lambda>j. resolve_entry (energy_array ! i) j (indexMapping ! j)) [0..<length indexMapping])"
    by (rule sequence_res_map_Inr)
  then show ?thesis by (simp add: extract_file_def resolve_def)
qed

text \<open>
  Claim C6, as stated, allows no other outcome for any index list and raw energy
  sequence. With one raw energy and two \<open>SelfReference\<close> entries the second read
  \<open>energy_array[i][1]\<close> raises \<open>IndexError\<close>.
\<close>

theorem extract_file_short_counterexample:
  "extract_file [[Fin 1]] 0 (map encode [SelfReference, SelfReference]) = Inl IndexError"
  by (simp add: extract_file_def extract_conf_def py_get_def upt_rec)

theorem extract_file_table_witness:
  "extract_file [[Fin 10, Fin 11, Fin 12]] 0 (map encode [Matched 2, NoMatchWithinCutoff, SelfReference, MoleculeAbsent])
           = Inr [Fin 12, NaN, Fin 12, NaN]"
proof -
  have a: "(0::nat) < length [[Fin 10, Fin 11, Fin 12]]" by simp
  have b: "in_range [Matched 2, NoMatchWithinCutoff, SelfReference, MoleculeAbsent] ([[Fin 10, Fin 11, Fin 12]] ! 0)"
    by (simp add: in_range_def upt_rec)
  from extract_file_table[OF a b] show ?thesis by (simp add: resolve_def upt_rec)
qed

subsection \<open>The RMS error\<close>

lemma foldl_fadd_Fin: "foldl fadd (Fin c) (map Fin rs) = Fin (c + sum_list rs)"
  by (induction rs arbitrary: c) (auto simp: add.assoc)

lemma np_mean_Fin: "rs \<noteq> [] \<Longrightarrow> np_mean (map Fin rs) = Fin (sum_list rs / real (length rs))"
  by (simp add: np_mean_def foldl_fadd_Fin)

lemma filter_neq_upt: "z < n \<Longrightarrow> filter (\<lambda>j. j \<noteq> z) [0..<n] = [0..<z] @ [Suc z..<n]"
proof -
  assume z: "z < n"
  have "[0..<z + (n - z)] = [0..<z] @ [z..<z + (n - z)]" by (rule upt_add_eq_append) simp
  then have "[0..<n] = [0..<z] @ [z..<n]" using z by simp
  then have "[0..<n] = [0..<z] @ z # [Suc z..<n]" using z by (simp add: upt_conv_Cons)
  moreover have "filter (\<lambda>j. j \<noteq> z) [0..<z] = [0..<z]" by (simp add: filter_id_conv)
  moreover have "filter (\<lambda>j. j \<noteq> z) [Suc z..<n] = [Suc z..<n]" by (simp add: filter_id_conv)
  ultimately show ?thesis by simp
qed

lemma np_delete_map_upt:
  assumes "z < n"
  shows "np_delete (map f [0..<n]) z = Inr (map f (filter (\<lambda>j. j \<noteq> z) [0..<n]))"
proof -
  have "take z (map f [0..<n]) = map f [0..<z]" using assms by (simp add: take_map take_upt)
  moreover have "drop (Suc z) (map f [0..<n]) = map f [Suc z..<n]" by (simp add: drop_map drop_upt)
  ultimately show ?thesis using assms by (simp add: np_delete_def filter_neq_upt)
qed

lemma np_sub_same_length:
  assumes "length a = length b"
  shows "np_sub a b = Inr (map (\<lambda>j. fsub (a ! j) (b ! j)) [0..<length b])"
proof -
  have "map (\<lambda>(x, y). fsub x y) (zip a b) = map (\<lambda>j. fsub (a ! j) (b ! j)) [0..<length b]"
    using assms by (intro nth_equalityI) auto
  then show ?thesis using assms by (simp add: np_sub_def)
qed

lemma isnan_square_sub: "isnan (fsquare (fsub x y)) \<longleftrightarrow> isnan x \<or> isnan y"
  by (cases x; cases y) auto

lemma square_sub_Fin:
  "\<not> isnan x \<Longrightarrow> \<not> isnan y \<Longrightarrow> fsquare (fsub x y) = Fin ((fval x - fval y)\<^sup>2)"
  by (cases x; cases y) (auto simp: power2_eq_square)

lemma rms_file_eq:
  assumes len: "length filelist = length ref_list"
    and i: "i < length lowest_conf_indices"
    and z: "lowest_conf_indices ! i < length ref_list"
  shows "rms_file filelist ref_list lowest_conf_indices i
           = Inr (rms_spec filelist ref_list (lowest_conf_indices ! i))"
proof -
  let ?z = "lowest_conf_indices ! i"
  let ?sq = "\<lambda>j. fsquare (fsub (filelist ! j) (ref_list ! j))"
  let ?J = "included filelist ref_list ?z"
  let ?rs = "map (\<lambda>j. (fval (filelist ! j) - fval (ref_list ! j))\<^sup>2) ?J"
  have del: "np_delete (map fsquare (map (\<lambda>j. fsub (filelist ! j) (ref_list ! j)) [0..<length ref_list])) ?z
          = Inr (map ?sq (filter (\<lambda>j. j \<noteq> ?z) [0..<length ref_list]))"
    using np_delete_map_upt[OF z, of ?sq] by (simp add: comp_def)
  have "filter (\<lambda>x. \<not> isnan x) (map ?sq (filter (\<lambda>j. j \<noteq> ?z) [0..<length ref_list])) = map ?sq ?J"
    unfolding included_def filter_map filter_filter comp_def isnan_square_sub
    by (rule arg_cong[where f="map ?sq"], rule filter_cong) auto
  also have "\<dots> = map Fin ?rs"
    by (auto simp: included_def square_sub_Fin)
  finally have flt: "filter (\<lambda>x. \<not> isnan x) (map ?sq (filter (\<lambda>j. j \<noteq> ?z) [0..<length ref_list])) = map Fin ?rs" .
  have step: "rms_file filelist ref_list lowest_conf_indices i = Inr (fsqrt (np_mean (map Fin ?rs)))"
    using np_sub_same_length[OF len] i del flt by (simp add: rms_file_def py_get_nat)
  show ?thesis
  proof (cases "?J = []")
    case True
    then show ?thesis using step by (simp add: rms_spec_def np_mean_def)
  next
    case False
    then have ne: "?rs \<noteq> []" by simp
    have nonneg: "0 \<le> sum_list ?rs / real (length ?rs)"
      by (intro divide_nonneg_nonneg sum_list_nonneg) auto
    have "fsqrt (np_mean (map Fin ?rs)) = Fin (sqrt (sum_list ?rs / real (length ?rs)))"
      using np_mean_Fin[OF ne] nonneg by simp
    then show ?thesis using step False by (simp add: rms_spec_def Let_def)
  qed
qed

lemma rms_mol_eq:
  assumes "mol_array \<noteq> []"
    and "\<forall>row\<in>set mol_array. length row = length (mol_array ! 0)"
    and "i < length zs" "zs ! i < length (mol_array ! 0)"
  shows "rms_mol mol_array zs i = Inr (map (\<lambda>row. rms_spec row (mol_array ! 0) (zs ! i)) mol_array)"
proof -
  have g: "py_get mol_array 0 = Inr (mol_array ! 0)" using assms(1) by (simp add: py_get_def)
  show ?thesis unfolding rms_mol_def
  proof (rule sequence_res_map_Inr)
    fix row assume "row \<in> set mol_array"
    then have "length row = length (mol_array ! 0)" using assms(2) by blast
    from rms_file_eq[OF this assms(3) assms(4)] g
    show "(case py_get mol_array 0 of Inl e \<Rightarrow> Inl e
            | Inr ref_list \<Rightarrow> rms_file row ref_list zs i)
          = Inr (rms_spec row (mol_array ! 0) (zs ! i))" by simp
  qed
qed

text \<open>
  Claim C5. On a table as \<open>calc_rel_ene\<close> produces it, \<open>calc_rms_error\<close> returns for every
  molecule and every method row the value \<open>rms_spec\<close>: the square root of the mean of
  \<open>(relative_method[j] - relative_reference[j])\<^sup>2\<close> over the positions \<open>j \<noteq> z\<close> where
  neither value is missing, with the number of included positions as divisor, and the
  missing marker \<open>NaN\<close> when no position is included.
\<close>

theorem calc_rms_error_population_rms:
  assumes "rectangular rel_energies lowest_conf_indices"
  shows "calc_rms_error rel_energies lowest_conf_indices
           = Inr (map (\<lambda>i. map (\<lambda>row. rms_spec row (rel_energies ! i ! 0) (lowest_conf_indices ! i))
                                (rel_energies ! i)) [0..<length rel_energies])"
  unfolding calc_rms_error_def
proof (rule sequence_res_map_Inr)
  fix i assume "i \<in> set [0..<length rel_energies]"
  then have i: "i < length rel_energies" by simp
  from assms have len: "length lowest_conf_indices = length rel_energies"
    and all: "\<forall>i\<in>set [0..<length rel_energies]. rel_energies ! i \<noteq> [] \<and>
         lowest_conf_indices ! i < length (rel_energies ! i ! 0) \<and>
         (\<forall>row\<in>set (rel_energies ! i). length row = length (rel_energies ! i ! 0))"
    unfolding rectangular_def list_all_iff by blast+
  from all \<open>i \<in> set [0..<length rel_energies]\<close>
  have a: "rel_energies ! i \<noteq> []" "lowest_conf_indices ! i < length (rel_energies ! i ! 0)"
     "\<forall>row\<in>set (rel_energies ! i). length row = length (rel_energies ! i ! 0)"
    by blast+
  have a4: "i < length lowest_conf_indices" using i len by simp
  show "rms_mol (rel_energies ! i) lowest_conf_indices i
      = Inr (map (\<lambda>row. rms_spec row (rel_energies ! i ! 0) (lowest_conf_indices ! i)) (rel_energies ! i))"
    using rms_mol_eq[OF a(1) a(3) a4 a(2)] .
qed


text \<open>
  Claim C8, amended. The RMS error of a row compared against that same row is exactly 0
  when at least one position other than the reference conformer holds a value in that
  row, and is the missing marker \<open>NaN\<close> when there is no such position.
\<close>

theorem rms_file_self:
  assumes "i < length lowest_conf_indices" and "lowest_conf_indices ! i < length row"
  shows "rms_file row row lowest_conf_indices i
           = Inr (if included row row (lowest_conf_indices ! i) = [] then NaN else Fin 0)"
proof -
  have "rms_file row row lowest_conf_indices i = Inr (rms_spec row row (lowest_conf_indices ! i))"
    using assms by (intro rms_file_eq) simp_all
  then show ?thesis by (simp add: rms_spec_def Let_def)
qed

theorem rms_file_self_witness:
  "rms_file [Fin 0, Fin 1, NaN] [Fin 0, Fin 1, NaN] [0] 0 = Inr (Fin 0) \<and>
   rms_file [NaN, NaN] [NaN, NaN] [0] 0 = Inr NaN"
proof -
  have a: "(0::nat) < length [0::nat]" by simp
  have b: "[0::nat] ! 0 < length [Fin 0, Fin 1, NaN]" by simp
  have c: "[0::nat] ! 0 < length [NaN, NaN]" by simp
  from rms_file_self[OF a b] rms_file_self[OF a c] show ?thesis
    by (simp add: included_def upt_rec)
qed

lemma sqrt_9: "sqrt 9 = 3"
  by (rule real_sqrt_unique) simp_all

text \<open>The example of the specification: three conformers, reference conformer 0, the
  deviations of the second method are \<open>-3\<close> and \<open>-3\<close>, its RMS error is 3.\<close>

lemma included_example:
  "included [Fin 0, Fin (- 2), Fin (- 1)] [Fin 0, Fin 1, Fin 2] 0 = [1, 2]"
  "included [Fin 0, Fin 1, Fin 2] [Fin 0, Fin 1, Fin 2] 0 = [1, 2]"
  by (simp_all add: included_def upt_rec)

lemma rms_spec_example:
  "rms_spec [Fin 0, Fin 1, Fin 2] [Fin 0, Fin 1, Fin 2] 0 = Fin 0"
  "rms_spec [Fin 0, Fin (- 2), Fin (- 1)] [Fin 0, Fin 1, Fin 2] 0 = Fin 3"
  by (simp_all add: rms_spec_def included_example sqrt_9)

theorem calc_rms_error_population_rms_witness:
  "rectangular [[[Fin 0, Fin 1, Fin 2], [Fin 0, Fin (- 2), Fin (- 1)]]] [0] \<and>
   calc_rms_error [[[Fin 0, Fin 1, Fin 2], [Fin 0, Fin (- 2), Fin (- 1)]]] [0] = Inr [[Fin 0, Fin 3]]"
proof -
  have r: "rectangular [[[Fin 0, Fin 1, Fin 2], [Fin 0, Fin (- 2), Fin (- 1)]]] [0]"
    by (simp add: rectangular_def)
  from calc_rms_error_population_rms[OF r] r show ?thesis
    by (simp add: rms_spec_example)
qed

text \<open>
  Claim C8, as stated, makes the RMS error of a row against itself exactly 0 for every
  molecule. For a molecule with a single conformer the only position is the reference
  conformer, which is deleted; the mean of the empty array is NaN.
\<close>

theorem calc_rms_error_self_counterexample:
  "calc_rms_error [[[Fin 0]]] [0] = Inr [[NaN]]"
proof -
  have sub: "np_sub [Fin 0] [Fin 0] = Inr [Fin 0]" by (simp add: np_sub_def)
  have del: "np_delete [Fin 0] 0 = Inr []" by (simp add: np_delete_def)
  have "rms_file [Fin 0] [Fin 0] [0] 0 = Inr NaN"
    by (simp add: rms_file_def sub del py_get_def np_mean_def)
  then have "rms_mol [[Fin 0]] [0] 0 = Inr [NaN]" by (simp add: rms_mol_def py_get_def)
  then show ?thesis by (simp add: calc_rms_error_def)
qed

subsection \<open>The relative energies\<close>

declare scan_thresholds.simps [simp del]

lemma well_shaped_molD:
  assumes "well_shaped_mol mol_array"
  shows "mol_array \<noteq> []" "mol_array ! 0 \<noteq> []"
    "\<And>row. row \<in> set mol_array \<Longrightarrow> length row = length (mol_array ! 0)"
  using assms by (auto simp: well_shaped_mol_def list_all_iff split: list.splits)

lemma column_ok:
  assumes "\<And>row. row \<in> set mol_array \<Longrightarrow> j < length row"
  shows "column mol_array j = Inr (map (\<lambda>row. row ! j) mol_array)"
  unfolding column_def by (rule sequence_res_map_Inr) (simp add: assms py_get_nat)

lemma nan_count_ok:
  assumes "\<And>row. row \<in> set mol_array \<Longrightarrow> j < length row"
  shows "nan_count mol_array j = Inr (missing_count mol_array j)"
  by (simp add: nan_count_def column_ok[OF assms] missing_count_def filter_map comp_def)

lemma nan_cnt_ok:
  assumes "\<And>row. row \<in> set mol_array \<Longrightarrow> length row = n"
  shows "sequence_res (map (nan_count mol_array) [0..<n])
           = Inr (map (missing_count mol_array) [0..<n])"
proof (rule sequence_res_map_Inr)
  fix j assume "j \<in> set [0..<n]"
  then have "\<And>row. row \<in> set mol_array \<Longrightarrow> j < length row" using assms by simp
  then show "nan_count mol_array j = Inr (missing_count mol_array j)" by (rule nan_count_ok)
qed

lemma np_where_eq_set: "set (np_where_eq nan_cnt t) = {j. j < length nan_cnt \<and> nan_cnt ! j = t}"
  by (auto simp: np_where_eq_def)

lemma scan_thresholds_eq:
  "scan_thresholds nan_cnt n [] c =
     (case filter (\<lambda>t. np_where_eq nan_cnt t \<noteq> []) [c..<n] of
        [] \<Rightarrow> []
      | t # _ \<Rightarrow> np_where_eq nan_cnt t)"
proof (induction "n - c" arbitrary: c)
  case 0
  then show ?case by (simp add: scan_thresholds.simps[of nan_cnt n "[]" c])
next
  case (Suc d)
  then have lt: "c < n" and d: "d = n - Suc c" by simp_all
  have upt: "[c..<n] = c # [Suc c..<n]" using lt by (rule upt_conv_Cons)
  show ?case
  proof (cases "np_where_eq nan_cnt c = []")
    case True
    have "scan_thresholds nan_cnt n [] c = scan_thresholds nan_cnt n [] (Suc c)"
      using lt True by (simp add: scan_thresholds.simps[of nan_cnt n "[]" c])
    then show ?thesis using Suc.hyps(1)[OF d] True upt by simp
  next
    case False
    have "scan_thresholds nan_cnt n [] c = scan_thresholds nan_cnt n (np_where_eq nan_cnt c) (Suc c)"
      using lt by (simp add: scan_thresholds.simps[of nan_cnt n "[]" c])
    also have "\<dots> = np_where_eq nan_cnt c"
      using False by (simp add: scan_thresholds.simps[of nan_cnt n "np_where_eq nan_cnt c" "Suc c"])
    finally show ?thesis using False upt by simp
  qed
qed

lemma scan_thresholds_range:
  "j \<in> set (scan_thresholds nan_cnt n [] 0) \<Longrightarrow> j < length nan_cnt"
  by (auto simp: scan_thresholds_eq np_where_eq_set split: list.splits)

lemma first_index:
  assumes "\<exists>i<n. P i"
  shows "\<exists>i rest. filter P [0..<n] = i # rest"
proof -
  from assms obtain i where "i \<in> set (filter P [0..<n])" by auto
  then show ?thesis by (cases "filter P [0..<n]") auto
qed

lemma list_all_fle_min:
  assumes "\<forall>x\<in>set a. \<not> isnan x" "a \<noteq> []"
  shows "\<exists>i<length a. list_all (fle (a ! i)) a"
proof -
  have "Min (fval ` set a) \<in> fval ` set a" using assms(2) by (intro Min_in) auto
  then obtain i where i: "i < length a" "fval (a ! i) = Min (fval ` set a)"
    by (auto simp: in_set_conv_nth)
  have "fle (a ! i) y" if "y \<in> set a" for y
  proof -
    have "fval (a ! i) \<le> fval y" using i(2) that by simp
    moreover have "\<not> isnan y" "\<not> isnan (a ! i)" using assms(1) that i(1) by auto
    ultimately show ?thesis by (cases y; cases "a ! i") auto
  qed
  then show ?thesis using i(1) by (auto simp: list_all_iff)
qed

lemma np_argmin_ok:
  assumes "a \<noteq> []"
  shows "\<exists>k. np_argmin a = Inr k \<and> k < length a"
proof (cases "\<exists>i<length a. isnan (a ! i)")
  case True
  from first_index[OF True] obtain i rest where f: "filter (\<lambda>i. isnan (a ! i)) [0..<length a] = i # rest"
    by blast
  from filter_upt_hd[OF f] have "i < length a" by simp
  then show ?thesis using assms f by (simp add: np_argmin_def)
next
  case False
  then have nonan: "\<forall>x\<in>set a. \<not> isnan x" by (auto simp: in_set_conv_nth)
  have e: "filter (\<lambda>i. isnan (a ! i)) [0..<length a] = []" using False by (simp add: filter_empty_conv)
  from first_index[OF list_all_fle_min[OF nonan assms]] obtain i rest where
    f: "filter (\<lambda>i. list_all (fle (a ! i)) a) [0..<length a] = i # rest" by blast
  from filter_upt_hd[OF f] have "i < length a" by simp
  then show ?thesis using assms e f by (simp add: np_argmin_def)
qed

lemma index_of_min_ok:
  assumes "nan_cnt \<noteq> []"
  shows "\<exists>j. index_of_min nan_cnt = Inr j \<and> j < length nan_cnt \<and> nan_cnt ! j = Min (set nan_cnt)
             \<and> (\<forall>j'<j. nan_cnt ! j' \<noteq> Min (set nan_cnt))"
proof -
  have m: "min_list nan_cnt = Min (set nan_cnt)" using assms by (rule min_list_Min)
  have "Min (set nan_cnt) \<in> set nan_cnt" using assms by (intro Min_in) auto
  then have "\<exists>j<length nan_cnt. nan_cnt ! j = min_list nan_cnt" using m by (auto simp: in_set_conv_nth)
  from first_index[OF this] obtain j rest where
    f: "filter (\<lambda>j. nan_cnt ! j = min_list nan_cnt) [0..<length nan_cnt] = j # rest" by blast
  from filter_upt_hd[OF f] m have "j < length nan_cnt \<and> nan_cnt ! j = Min (set nan_cnt)
             \<and> (\<forall>j'<j. nan_cnt ! j' \<noteq> Min (set nan_cnt))" by simp
  moreover have "index_of_min nan_cnt = Inr j" using assms f by (simp add: index_of_min_def)
  ultimately show ?thesis by blast
qed

lemma lowest_conf_ok:
  assumes "well_shaped_mol mol_array"
  shows "\<exists>z. lowest_conf mol_array = Inr z \<and> z < length (mol_array ! 0)"
proof -
  let ?n = "length (mol_array ! 0)"
  let ?cnt = "map (missing_count mol_array) [0..<?n]"
  let ?inds = "scan_thresholds ?cnt ?n [] 0"
  note ws = well_shaped_molD[OF assms]
  have g: "py_get mol_array 0 = Inr (mol_array ! 0)" using ws(1) by (simp add: py_get_def)
  have c: "sequence_res (map (nan_count mol_array) [0..<?n]) = Inr ?cnt"
    using ws(3) by (rule nan_cnt_ok)
  show ?thesis
  proof (cases "?inds = []")
    case True
    have "?cnt \<noteq> []" using ws(2) by simp
    from index_of_min_ok[OF this] obtain j where "index_of_min ?cnt = Inr j" "j < ?n" by auto
    then show ?thesis using g c True by (simp add: lowest_conf_def)
  next
    case False
    then have "map (\<lambda>j. (mol_array ! 0) ! j) ?inds \<noteq> []" by simp
    from np_argmin_ok[OF this] obtain k where
      k: "np_argmin (map (\<lambda>j. (mol_array ! 0) ! j) ?inds) = Inr k" "k < length ?inds" by auto
    then have "?inds ! k \<in> set ?inds" by simp
    then have "?inds ! k < ?n" using scan_thresholds_range[of "?inds ! k" ?cnt ?n] by simp
    then show ?thesis using g c False k(1) by (simp add: lowest_conf_def Let_def)
  qed
qed

lemma rel_row_ok:
  assumes "z < length fileE"
  shows "rel_row z fileE = Inr (map (\<lambda>i. fsub (fileE ! i) (fileE ! z)) [0..<length fileE])"
  unfolding rel_row_def by (rule sequence_res_map_Inr) (simp add: py_get_nat[OF assms])

lemma rel_mol_ok:
  assumes "\<And>row. row \<in> set molE \<Longrightarrow> z < length row"
  shows "rel_mol z molE
           = Inr (map (\<lambda>row. map (\<lambda>i. fsub (row ! i) (row ! z)) [0..<length row]) molE)"
  unfolding rel_mol_def by (rule sequence_res_map_Inr) (simp add: rel_row_ok assms)

lemma fsub_self: "fsub x x = (if isnan x then NaN else Fin 0)"
  by (cases x) auto

lemma lowest_confs_ok:
  assumes "well_shaped matched_enes"
  shows "\<exists>zs. sequence_res (map lowest_conf matched_enes) = Inr zs \<and>
           length zs = length matched_enes \<and>
           (\<forall>i<length matched_enes. lowest_conf (matched_enes ! i) = Inr (zs ! i)
               \<and> zs ! i < length (matched_enes ! i ! 0))"
proof -
  let ?zs = "map (\<lambda>m. projr (lowest_conf m)) matched_enes"
  have each: "lowest_conf m = Inr (projr (lowest_conf m)) \<and> projr (lowest_conf m) < length (m ! 0)"
    if "m \<in> set matched_enes" for m
  proof -
    have "well_shaped_mol m" using assms that by (simp add: well_shaped_def list_all_iff)
    from lowest_conf_ok[OF this] show ?thesis by auto
  qed
  have "sequence_res (map lowest_conf matched_enes) = Inr ?zs"
    by (rule sequence_res_map_Inr) (use each in blast)
  moreover have "\<forall>i<length matched_enes. lowest_conf (matched_enes ! i) = Inr (?zs ! i)
               \<and> ?zs ! i < length (matched_enes ! i ! 0)"
    using each by simp
  ultimately show ?thesis by (intro exI[of _ ?zs]) simp
qed

lemma calc_rel_ene_ok:
  assumes "well_shaped matched_enes"
  shows "\<exists>zs. calc_rel_ene matched_enes
            = Inr (map (\<lambda>i. map (\<lambda>row. map (\<lambda>j. fsub (row ! j) (row ! (zs ! i))) [0..<length row])
                                 (matched_enes ! i)) [0..<length matched_enes], zs)
          \<and> length zs = length matched_enes
          \<and> (\<forall>i<length matched_enes. lowest_conf (matched_enes ! i) = Inr (zs ! i)
               \<and> zs ! i < length (matched_enes ! i ! 0))"
proof -
  from lowest_confs_ok[OF assms] obtain zs where
    zs: "sequence_res (map lowest_conf matched_enes) = Inr zs" "length zs = length matched_enes"
        "\<forall>i<length matched_enes. lowest_conf (matched_enes ! i) = Inr (zs ! i)
               \<and> zs ! i < length (matched_enes ! i ! 0)" by blast
  let ?g = "\<lambda>(z, molE). map (\<lambda>row. map (\<lambda>j. fsub (row ! j) (row ! z)) [0..<length row]) molE"
  have "sequence_res (map (\<lambda>(z, molE). rel_mol z molE) (zip zs matched_enes))
          = Inr (map ?g (zip zs matched_enes))"
  proof (rule sequence_res_map_Inr)
    fix p assume "p \<in> set (zip zs matched_enes)"
    then obtain i where i: "i < length matched_enes" "p = (zs ! i, matched_enes ! i)"
      using zs(2) by (auto simp: in_set_zip)
    have "well_shaped_mol (matched_enes ! i)"
      using assms i(1) by (simp add: well_shaped_def list_all_length)
    from well_shaped_molD(3)[OF this] zs(3) i(1)
    have "\<And>row. row \<in> set (matched_enes ! i) \<Longrightarrow> zs ! i < length row" by simp
    from rel_mol_ok[OF this] show "(case p of (z, molE) \<Rightarrow> rel_mol z molE) = Inr (?g p)"
      using i(2) by simp
  qed
  moreover have "map ?g (zip zs matched_enes)
      = map (\<lambda>i. map (\<lambda>row. map (\<lambda>j. fsub (row ! j) (row ! (zs ! i))) [0..<length row])
                                 (matched_enes ! i)) [0..<length matched_enes]"
    using zs(2) by (intro nth_equalityI) simp_all
  ultimately show ?thesis using zs by (intro exI[of _ zs]) (simp add: calc_rel_ene_def)
qed

text \<open>
  Claim C1, as stated, makes the relative energy at the reference conformer 0 in every
  row, also in a row whose matched energy there is missing. With a second method whose
  row is missing everywhere (the molecule is absent from its file) the reference
  conformer is position 0 and the relative energy of that row there is
  \<open>nan - nan = nan\<close>, which is not 0.
\<close>

theorem calc_rel_ene_nan_counterexample:
  "calc_rel_ene [[[Fin 1, Fin 2], [NaN, NaN]]] = Inr ([[[Fin 0, Fin 1], [NaN, NaN]]], [0])
   \<and> [[[Fin 0, Fin 1], [NaN, NaN]]] ! 0 ! 1 ! 0 \<noteq> Fin 0"
proof -
  have c0: "nan_count [[Fin 1, Fin 2], [NaN, NaN]] 0 = Inr (Suc 0)"
    by (simp add: nan_count_def column_def py_get_def)
  have c1: "nan_count [[Fin 1, Fin 2], [NaN, NaN]] (Suc 0) = Inr (Suc 0)"
    by (simp add: nan_count_def column_def py_get_def)
  have s: "scan_thresholds [Suc 0, Suc 0] (Suc (Suc 0)) [] 0 = [0, Suc 0]"
    by (simp add: scan_thresholds_eq upt_rec np_where_eq_def)
  have a: "np_argmin [Fin 1, Fin 2] = Inr 0" by (simp add: np_argmin_def upt_rec)
  have z: "lowest_conf [[Fin 1, Fin 2], [NaN, NaN]] = Inr 0"
    by (simp add: lowest_conf_def py_get_def c0 c1 s a)
  have r0: "rel_row 0 [Fin 1, Fin 2] = Inr [Fin 0, Fin 1]"
    by (simp add: rel_row_def py_get_def upt_rec)
  have r1: "rel_row 0 [NaN, NaN] = Inr [NaN, NaN]"
    by (simp add: rel_row_def py_get_def upt_rec)
  have "rel_mol 0 [[Fin 1, Fin 2], [NaN, NaN]] = Inr [[Fin 0, Fin 1], [NaN, NaN]]"
    by (simp add: rel_mol_def r0 r1)
  then show ?thesis by (simp add: calc_rel_ene_def z)
qed

lemma fsub_nan_right: "isnan y \<Longrightarrow> fsub x y = NaN"
  by (cases x; cases y) auto

text \<open>
  Claim C1, amended. On a table as \<open>extract_matches\<close> produces it, \<open>calc_rel_ene\<close> returns
  the relative energies and one reference conformer \<open>z\<close> per molecule, the position that
  \<open>lowest_conf\<close> selects in its reference row. Every row of the result is as long as the
  matched row and holds \<open>matched[j] - matched[z]\<close> at every position \<open>j\<close>. So in every
  method's row the relative energy at \<open>z\<close> is 0 when the matched energy of that row at
  \<open>z\<close> is a number; and when that matched energy is missing, the relative energy is
  missing at \<open>z\<close> and at every other position of the row.
\<close>

theorem calc_rel_ene_zero_at_reference:
  assumes "well_shaped matched_enes"
  shows "\<exists>rel zs. calc_rel_ene matched_enes = Inr (rel, zs)
          \<and> length rel = length matched_enes \<and> length zs = length matched_enes
          \<and> (\<forall>i<length matched_enes.
               lowest_conf (matched_enes ! i) = Inr (zs ! i)
               \<and> zs ! i < length (matched_enes ! i ! 0)
               \<and> length (rel ! i) = length (matched_enes ! i)
               \<and> (\<forall>m<length (matched_enes ! i).
                     length (rel ! i ! m) = length (matched_enes ! i ! m)
                     \<and> (\<forall>j<length (matched_enes ! i ! m).
                           rel ! i ! m ! j
                             = fsub (matched_enes ! i ! m ! j) (matched_enes ! i ! m ! (zs ! i)))
                     \<and> rel ! i ! m ! (zs ! i)
                         = (if isnan (matched_enes ! i ! m ! (zs ! i)) then NaN else Fin 0)
                     \<and> (isnan (matched_enes ! i ! m ! (zs ! i)) \<longrightarrow>
                           (\<forall>j<length (matched_enes ! i ! m). rel ! i ! m ! j = NaN))))"
proof -
  from calc_rel_ene_ok[OF assms] obtain zs where
    c: "calc_rel_ene matched_enes
            = Inr (map (\<lambda>i. map (\<lambda>row. map (\<lambda>j. fsub (row ! j) (row ! (zs ! i))) [0..<length row])
                                 (matched_enes ! i)) [0..<length matched_enes], zs)"
    and l: "length zs = length matched_enes"
    and z: "\<forall>i<length matched_enes. lowest_conf (matched_enes ! i) = Inr (zs ! i)
               \<and> zs ! i < length (matched_enes ! i ! 0)" by blast
  let ?rel = "map (\<lambda>i. map (\<lambda>row. map (\<lambda>j. fsub (row ! j) (row ! (zs ! i))) [0..<length row])
                                 (matched_enes ! i)) [0..<length matched_enes]"
  have "lowest_conf (matched_enes ! i) = Inr (zs ! i)
               \<and> zs ! i < length (matched_enes ! i ! 0)
               \<and> length (?rel ! i) = length (matched_enes ! i)
               \<and> (\<forall>m<length (matched_enes ! i).
                     length (?rel ! i ! m) = length (matched_enes ! i ! m)
                     \<and> (\<forall>j<length (matched_enes ! i ! m).
                           ?rel ! i ! m ! j
                             = fsub (matched_enes ! i ! m ! j) (matched_enes ! i ! m ! (zs ! i)))
                     \<and> ?rel ! i ! m ! (zs ! i)
                         = (if isnan (matched_enes ! i ! m ! (zs ! i)) then NaN else Fin 0)
                     \<and> (isnan (matched_enes ! i ! m ! (zs ! i)) \<longrightarrow>
                           (\<forall>j<length (matched_enes ! i ! m). ?rel ! i ! m ! j = NaN)))"
    if i: "i < length matched_enes" for i
  proof -
    have ws: "well_shaped_mol (matched_enes ! i)"
      using assms i by (simp add: well_shaped_def list_all_length)
    have zi: "zs ! i < length (matched_enes ! i ! 0)" using z i by blast
    have lc: "lowest_conf (matched_enes ! i) = Inr (zs ! i)" using z i by blast
    have row: "length (?rel ! i ! m) = length (matched_enes ! i ! m)
                     \<and> (\<forall>j<length (matched_enes ! i ! m).
                           ?rel ! i ! m ! j
                             = fsub (matched_enes ! i ! m ! j) (matched_enes ! i ! m ! (zs ! i)))
                     \<and> ?rel ! i ! m ! (zs ! i)
                         = (if isnan (matched_enes ! i ! m ! (zs ! i)) then NaN else Fin 0)
                     \<and> (isnan (matched_enes ! i ! m ! (zs ! i)) \<longrightarrow>
                           (\<forall>j<length (matched_enes ! i ! m). ?rel ! i ! m ! j = NaN))"
      if m: "m < length (matched_enes ! i)" for m
    proof -
      have "matched_enes ! i ! m \<in> set (matched_enes ! i)" using m by simp
      from well_shaped_molD(3)[OF ws this] zi
      have zm: "zs ! i < length (matched_enes ! i ! m)" by simp
      have e: "?rel ! i ! m = map (\<lambda>j. fsub (matched_enes ! i ! m ! j) (matched_enes ! i ! m ! (zs ! i)))
                                [0..<length (matched_enes ! i ! m)]"
        using i m by simp
      have 1: "length (?rel ! i ! m) = length (matched_enes ! i ! m)" unfolding e by simp
      have 2: "\<forall>j<length (matched_enes ! i ! m).
                 ?rel ! i ! m ! j = fsub (matched_enes ! i ! m ! j) (matched_enes ! i ! m ! (zs ! i))"
        unfolding e by simp
      from 2 zm have 3: "?rel ! i ! m ! (zs ! i)
                         = (if isnan (matched_enes ! i ! m ! (zs ! i)) then NaN else Fin 0)"
        by (simp only: fsub_self)
      have 4: "\<forall>j<length (matched_enes ! i ! m). ?rel ! i ! m ! j = NaN"
        if "isnan (matched_enes ! i ! m ! (zs ! i))"
        using 2 fsub_nan_right[OF that] by simp
      from 1 2 3 4 show ?thesis by blast
    qed
    have len: "length (?rel ! i) = length (matched_enes ! i)" using i by simp
    from lc zi len row show ?thesis by blast
  qed
  moreover have "length ?rel = length matched_enes" by simp
  ultimately show ?thesis using c l by blast
qed

text \<open>Three methods and two conformers: the second method has no energy at position 0,
  the third none at position 1. The reference conformer is position 0; the row of the
  second method, missing there, is missing at both positions of the result.\<close>

lemma calc_rel_ene_missing_row_example:
  "calc_rel_ene [[[Fin 1, Fin 2], [NaN, Fin 5], [Fin 3, NaN]]]
     = Inr ([[[Fin 0, Fin 1], [NaN, NaN], [Fin 0, NaN]]], [0])"
proof -
  let ?m = "[[Fin 1, Fin 2], [NaN, Fin 5], [Fin 3, NaN]]"
  have c: "nan_count ?m 0 = Inr (Suc 0)" "nan_count ?m (Suc 0) = Inr (Suc 0)"
    by (simp_all add: nan_count_def column_def py_get_def)
  have s: "scan_thresholds [Suc 0, Suc 0] (Suc (Suc 0)) [] 0 = [0, Suc 0]"
    by (simp add: scan_thresholds_eq upt_rec np_where_eq_def)
  have a: "np_argmin [Fin 1, Fin 2] = Inr 0" by (simp add: np_argmin_def upt_rec)
  have z: "lowest_conf ?m = Inr 0"
    by (simp add: lowest_conf_def py_get_def c s a)
  have r: "rel_row 0 [Fin 1, Fin 2] = Inr [Fin 0, Fin 1]"
    "rel_row 0 [NaN, Fin 5] = Inr [NaN, NaN]" "rel_row 0 [Fin 3, NaN] = Inr [Fin 0, NaN]"
    by (simp_all add: rel_row_def py_get_def upt_rec)
  have "rel_mol 0 ?m = Inr [[Fin 0, Fin 1], [NaN, NaN], [Fin 0, NaN]]"
    by (simp add: rel_mol_def r)
  then show ?thesis by (simp add: calc_rel_ene_def z)
qed

theorem calc_rel_ene_zero_at_reference_witness:
  "well_shaped [[[Fin 1, Fin 2], [NaN, Fin 5], [Fin 3, NaN]]] \<and>
   (\<exists>rel zs. calc_rel_ene [[[Fin 1, Fin 2], [NaN, Fin 5], [Fin 3, NaN]]] = Inr (rel, zs)
          \<and> length rel = length [[[Fin 1, Fin 2], [NaN, Fin 5], [Fin 3, NaN]]]
          \<and> length zs = length [[[Fin 1, Fin 2], [NaN, Fin 5], [Fin 3, NaN]]]
          \<and> (\<forall>i<length [[[Fin 1, Fin 2], [NaN, Fin 5], [Fin 3, NaN]]].
               lowest_conf ([[[Fin 1, Fin 2], [NaN, Fin 5], [Fin 3, NaN]]] ! i) = Inr (zs ! i)
               \<and> zs ! i < length ([[[Fin 1, Fin 2], [NaN, Fin 5], [Fin 3, NaN]]] ! i ! 0)
               \<and> length (rel ! i) = length ([[[Fin 1, Fin 2], [NaN, Fin 5], [Fin 3, NaN]]] ! i)
               \<and> (\<forall>m<length ([[[Fin 1, Fin 2], [NaN, Fin 5], [Fin 3, NaN]]] ! i).
                     length (rel ! i ! m)
                       = length ([[[Fin 1, Fin 2], [NaN, Fin 5], [Fin 3, NaN]]] ! i ! m)
                     \<and> (\<forall>j<length ([[[Fin 1, Fin 2], [NaN, Fin 5], [Fin 3, NaN]]] ! i ! m).
                           rel ! i ! m ! j
                             = fsub ([[[Fin 1, Fin 2], [NaN, Fin 5], [Fin 3, NaN]]] ! i ! m ! j)
                                    ([[[Fin 1, Fin 2], [NaN, Fin 5], [Fin 3, NaN]]] ! i ! m ! (zs ! i)))
                     \<and> rel ! i ! m ! (zs ! i)
                         = (if isnan ([[[Fin 1, Fin 2], [NaN, Fin 5], [Fin 3, NaN]]] ! i ! m ! (zs ! i))
                            then NaN else Fin 0)
                     \<and> (isnan ([[[Fin 1, Fin 2], [NaN, Fin 5], [Fin 3, NaN]]] ! i ! m ! (zs ! i)) \<longrightarrow>
                           (\<forall>j<length ([[[Fin 1, Fin 2], [NaN, Fin 5], [Fin 3, NaN]]] ! i ! m).
                              rel ! i ! m ! j = NaN)))))"
proof -
  have w: "well_shaped [[[Fin 1, Fin 2], [NaN, Fin 5], [Fin 3, NaN]]]"
    by (simp add: well_shaped_def well_shaped_mol_def)
  from calc_rel_ene_zero_at_reference[OF w] w show ?thesis by blast
qed

text \<open>
  Claim C4 at a molecule with two conformers and two methods: the reference method has
  the energies \<open>1.0\<close> and \<open>nan\<close>, the second method has no match for conformer 0 and the
  energy \<open>5.0\<close> for conformer 1. Both positions miss one energy, so both are candidates.
  \<open>np.argmin([1.0, nan])\<close> is 1: the code selects position 1, whose reference energy is
  missing, and not position 0, the candidate with the lowest reference energy.
\<close>

theorem lowest_conf_nan_reference:
  "candidates [[Fin 1, NaN], [NaN, Fin 5]] = [0, 1] \<and>
   lowest_conf [[Fin 1, NaN], [NaN, Fin 5]] = Inr 1"
proof -
  have cand: "candidates [[Fin 1, NaN], [NaN, Fin 5]] = [0, 1]"
    by (simp add: candidates_def positions_with_def missing_count_def upt_rec)
  have c0: "nan_count [[Fin 1, NaN], [NaN, Fin 5]] 0 = Inr (Suc 0)"
    by (simp add: nan_count_def column_def py_get_def)
  have c1: "nan_count [[Fin 1, NaN], [NaN, Fin 5]] (Suc 0) = Inr (Suc 0)"
    by (simp add: nan_count_def column_def py_get_def)
  have s: "scan_thresholds [Suc 0, Suc 0] (Suc (Suc 0)) [] 0 = [0, Suc 0]"
    by (simp add: scan_thresholds_eq upt_rec np_where_eq_def)
  have a: "np_argmin [Fin 1, NaN] = Inr (Suc 0)" by (simp add: np_argmin_def upt_rec)
  have "lowest_conf [[Fin 1, NaN], [NaN, Fin 5]] = Inr 1"
    by (simp add: lowest_conf_def py_get_def c0 c1 s a)
  with cand show ?thesis by simp
qed

text \<open>The two-stage rule of claim C4 holds on every molecule whose candidate positions
  all have a reference energy: the code returns a candidate whose reference energy is
  the least among the candidates, and with no candidate the first position of the least
  missing count.\<close>

lemma np_where_eq_missing_count:
  "np_where_eq (map (missing_count mol_array) [0..<length (mol_array ! 0)]) t
     = positions_with mol_array t"
  unfolding np_where_eq_def positions_with_def
  by (rule filter_cong) simp_all

lemma scan_thresholds_candidates:
  "scan_thresholds (map (missing_count mol_array) [0..<length (mol_array ! 0)])
       (length (mol_array ! 0)) [] 0 = candidates mol_array"
  unfolding scan_thresholds_eq candidates_def np_where_eq_missing_count by (rule refl)

lemma np_argmin_least:
  assumes "np_argmin a = Inr k" and "\<forall>x\<in>set a. \<not> isnan x"
  shows "k < length a \<and> list_all (fle (a ! k)) a"
proof -
  have e: "filter (\<lambda>i. isnan (a ! i)) [0..<length a] = []"
    using assms(2) by (simp add: filter_empty_conv)
  from assms(1) e obtain rest where
    f: "filter (\<lambda>i. list_all (fle (a ! i)) a) [0..<length a] = k # rest"
    by (auto simp: np_argmin_def split: if_splits list.splits)
  from filter_upt_hd[OF f] show ?thesis by simp
qed

lemma lowest_conf_two_stage:
  assumes "well_shaped_mol mol_array"
  shows "\<exists>z<length (mol_array ! 0). lowest_conf mol_array = Inr z \<and>
     (candidates mol_array \<noteq> [] \<longrightarrow> z \<in> set (candidates mol_array)) \<and>
     (candidates mol_array \<noteq> [] \<and> (\<forall>c\<in>set (candidates mol_array). \<not> isnan (mol_array ! 0 ! c)) \<longrightarrow>
         (\<forall>c\<in>set (candidates mol_array). fle (mol_array ! 0 ! z) (mol_array ! 0 ! c))) \<and>
     (candidates mol_array = [] \<longrightarrow>
         (\<forall>j<length (mol_array ! 0). missing_count mol_array z \<le> missing_count mol_array j) \<and>
         (\<forall>j<z. missing_count mol_array j \<noteq> missing_count mol_array z))"
proof -
  let ?n = "length (mol_array ! 0)"
  let ?cnt = "map (missing_count mol_array) [0..<?n]"
  let ?C = "candidates mol_array"
  note ws = well_shaped_molD[OF assms]
  have g: "py_get mol_array 0 = Inr (mol_array ! 0)" using ws(1) by (simp add: py_get_def)
  have c: "sequence_res (map (nan_count mol_array) [0..<?n]) = Inr ?cnt"
    using ws(3) by (rule nan_cnt_ok)
  have lc: "lowest_conf mol_array =
      (if ?C \<noteq> [] then (case np_argmin (map (\<lambda>j. mol_array ! 0 ! j) ?C) of
                             Inl e \<Rightarrow> Inl e | Inr k \<Rightarrow> Inr (?C ! k))
       else index_of_min ?cnt)"
    by (simp add: lowest_conf_def g c scan_thresholds_candidates Let_def)
  have Cr: "j < ?n" if "j \<in> set ?C" for j
    using that scan_thresholds_range[of j ?cnt ?n] by (simp add: scan_thresholds_candidates)
  show ?thesis
  proof (cases "?C = []")
    case True
    have "?cnt \<noteq> []" using ws(2) by simp
    from index_of_min_ok[OF this] obtain j where
      j: "index_of_min ?cnt = Inr j" "j < ?n" "?cnt ! j = Min (set ?cnt)"
         "\<forall>j'<j. ?cnt ! j' \<noteq> Min (set ?cnt)" by auto
    have le: "missing_count mol_array j \<le> missing_count mol_array j'" if "j' < ?n" for j'
    proof -
      have "?cnt ! j' \<in> set ?cnt" using that by (intro nth_mem) simp
      then have "Min (set ?cnt) \<le> ?cnt ! j'" by (intro Min_le) auto
      then show ?thesis using j(2,3) that by simp
    qed
    have first: "missing_count mol_array j' \<noteq> missing_count mol_array j" if "j' < j" for j'
    proof -
      have "?cnt ! j' \<noteq> ?cnt ! j" using j(3,4) that by simp
      then show ?thesis using that j(2) by simp
    qed
    show ?thesis using True lc j(1,2) le first by (intro exI[of _ j]) simp
  next
    case False
    then have "map (\<lambda>j. mol_array ! 0 ! j) ?C \<noteq> []" by simp
    from np_argmin_ok[OF this] obtain k where
      k: "np_argmin (map (\<lambda>j. mol_array ! 0 ! j) ?C) = Inr k" "k < length ?C" by auto
    have zin: "?C ! k \<in> set ?C" using k(2) by simp
    have least: "\<forall>c\<in>set ?C. fle (mol_array ! 0 ! (?C ! k)) (mol_array ! 0 ! c)"
      if nn: "\<forall>c\<in>set ?C. \<not> isnan (mol_array ! 0 ! c)"
    proof -
      have "\<forall>x\<in>set (map (\<lambda>j. mol_array ! 0 ! j) ?C). \<not> isnan x" using nn by simp
      from np_argmin_least[OF k(1) this] k(2) show ?thesis by (simp add: list_all_iff)
    qed
    show ?thesis using False lc k(1) zin Cr[OF zin] least by (intro exI[of _ "?C ! k"]) simp
  qed
qed

subsection \<open>The energy reader and the orchestrator\<close>

text \<open>
  Claim C7 at a molecule with two conformers of which only the second carries a tag that
  contains the tag name: \<open>get_sd_list\<close> returns one value for two conformers, and the
  value at position 0 is the energy of conformer 1.
\<close>

theorem get_sd_list_skips_untagged:
  "NumConfs ex_untagged_first = 2 \<and>
   get_sd_list ex_untagged_first ''qm energy'' = [''2.0'']"
  by code_simp

text \<open>When every conformer carries a matching tag, \<open>get_sd_list\<close> has one value per
  conformer, in the order of the conformers: the value of the first matching pair.\<close>

lemma concat_map_single:
  "(\<And>x. x \<in> set xs \<Longrightarrow> f x = [g x]) \<Longrightarrow> concat (map f xs) = map g xs"
  by (induction xs) simp_all

lemma get_sd_list_all_tagged:
  assumes "\<forall>c\<in>set (GetConfs mol).
             \<exists>x\<in>set (OEGetSDDataPairs c). py_in (lower taglabel) (lower (fst x))"
  shows "get_sd_list mol taglabel
           = map (\<lambda>c. snd (the (find (\<lambda>x. py_in (lower taglabel) (lower (fst x)))
                                        (OEGetSDDataPairs c)))) (GetConfs mol)"
proof -
  have "sd_of_conf c taglabel
          = [snd (the (find (\<lambda>x. py_in (lower taglabel) (lower (fst x))) (OEGetSDDataPairs c)))]"
    if "c \<in> set (GetConfs mol)" for c
  proof -
    from assms that have "\<exists>x\<in>set (OEGetSDDataPairs c). py_in (lower taglabel) (lower (fst x))"
      by blast
    then have "find (\<lambda>x. py_in (lower taglabel) (lower (fst x))) (OEGetSDDataPairs c) \<noteq> None"
      by (auto simp: find_None_iff)
    then show ?thesis by (auto simp: sd_of_conf_def)
  qed
  then show ?thesis unfolding get_sd_list_def by (rule concat_map_single)
qed

text \<open>
  Claim C2 at a reference file with the molecules A, B and a query file with the same
  molecules in the order B, A. For A the generator over the query file is read past B up
  to A and is then exhausted. For B the loop over the generator finds nothing: B is
  recorded as absent from the query file (index list \<open>[-2]\<close>, energies \<open>[nan]\<close>) although
  the query file holds a molecule with the title B.
\<close>

theorem match_minima_order_dependent:
  "match_minima ex_read_mols ex_float ex_rmsd ex_in_dict (1/2) =
   Inr [(''A'', \<lparr>energies = [[Fin 1], [Fin 1]], indices = [[Some (- 1)], [Some 0]],
                 ref_nconfs = []\<rparr>),
        (''B'', \<lparr>energies = [[Fin 2], [NaN]], indices = [[Some (- 1)], [Some (- 2)]],
                 ref_nconfs = [1]\<rparr>)]"
  by code_simp

lemma compare_loop_length:
  "compare_loop OERMSD rconfs qconfs c acc = Inr out \<Longrightarrow> length out = length acc + length rconfs"
proof (induction rconfs arbitrary: acc)
  case Nil
  then show ?case by simp
next
  case (Cons r rs)
  then show ?case by (auto split: sum.splits)
qed

lemma compare_two_mols_length:
  "compare_two_mols OERMSD rmol qmol c = Inr out \<Longrightarrow> length out = NumConfs rmol"
  using compare_loop_length[of OERMSD "GetConfs rmol" "GetConfs qmol" c "[]" out]
  by (simp add: compare_two_mols_def NumConfs_def)

lemma set_dict_set: "set (dict_set k v d) \<subseteq> insert (k, v) (set d)"
  by (induction d) auto

lemma dict_get_indices:
  assumes "index_lengths_ok mols_ref d" and "idxs \<in> set (indices (dict_get d k))"
  shows "\<exists>rmol \<in> set mols_ref. GetTitle rmol = k \<and> length idxs = NumConfs rmol"
proof (cases "map_of d k")
  case None
  then show ?thesis using assms(2) by (simp add: dict_get_def)
next
  case (Some e)
  then have "(k, e) \<in> set d" by (rule map_of_SomeD)
  moreover have "idxs \<in> set (indices e)" using assms(2) Some by (simp add: dict_get_def)
  ultimately show ?thesis using assms(1) by (auto simp: index_lengths_ok_def)
qed

lemma index_lengths_ok_set:
  assumes ok: "index_lengths_ok mols_ref d"
    and rmol: "rmol \<in> set mols_ref"
    and new: "length new = NumConfs rmol"
    and e': "indices e' = indices (dict_get d (GetTitle rmol)) @ [new]"
  shows "index_lengths_ok mols_ref (dict_set (GetTitle rmol) e' d)"
  unfolding index_lengths_ok_def
proof (intro ballI, clarify)
  fix t e idxs
  assume te: "(t, e) \<in> set (dict_set (GetTitle rmol) e' d)" and i: "idxs \<in> set (indices e)"
  from te set_dict_set[of "GetTitle rmol" e' d]
  have "(t, e) = (GetTitle rmol, e') \<or> (t, e) \<in> set d" by blast
  then show "\<exists>r\<in>set mols_ref. GetTitle r = t \<and> length idxs = NumConfs r"
  proof
    assume eq: "(t, e) = (GetTitle rmol, e')"
    then have "idxs \<in> set (indices (dict_get d (GetTitle rmol))) \<or> idxs = new"
      using i e' by auto
    then show ?thesis
    proof
      assume "idxs \<in> set (indices (dict_get d (GetTitle rmol)))"
      from dict_get_indices[OF ok this] eq show ?thesis by simp
    next
      assume "idxs = new"
      then show ?thesis using rmol new eq by auto
    qed
  next
    assume "(t, e) \<in> set d"
    then show ?thesis using ok i by (auto simp: index_lengths_ok_def)
  qed
qed

lemma match_rmol_inv:
  assumes "match_rmol read_mols float OERMSD sdf_ref ff_dict c rmol st = Inr st'"
    and "index_lengths_ok mols_ref (snd st)" and "rmol \<in> set mols_ref"
  shows "index_lengths_ok mols_ref (snd st')"
proof (cases "fst (scan_query (GetTitle rmol) (fst st))")
  case None
  with assms(1) obtain fresh where
    "st' = (fresh, dict_set (GetTitle rmol)
               ((dict_get (snd st) (GetTitle rmol))
                  \<lparr>indices := indices (dict_get (snd st) (GetTitle rmol))
                                 @ [replicate (NumConfs rmol) (Some (- 2))],
                   energies := energies (dict_get (snd st) (GetTitle rmol))
                                 @ [replicate (NumConfs rmol) NaN],
                   ref_nconfs := ref_nconfs (dict_get (snd st) (GetTitle rmol)) @ [NumConfs rmol]\<rparr>)
               (snd st))"
    by (auto simp: match_rmol_def Let_def split: prod.splits sum.splits)
  then show ?thesis
    using index_lengths_ok_set[OF assms(2,3), of "replicate (NumConfs rmol) (Some (- 2))"] by simp
next
  case (Some qmol)
  with assms(1) obtain q enes new where
    st': "st' = (q, dict_set (GetTitle rmol)
               ((dict_get (snd st) (GetTitle rmol))
                  \<lparr>energies := energies (dict_get (snd st) (GetTitle rmol)) @ [enes],
                   indices := indices (dict_get (snd st) (GetTitle rmol)) @ [new]\<rparr>)
               (snd st))"
    and new: "new = replicate (NumConfs rmol) (Some (- 1))
              \<or> compare_two_mols OERMSD rmol qmol c = Inr new"
    by (auto simp: match_rmol_def Let_def split: prod.splits sum.splits if_splits)
  from new have "length new = NumConfs rmol" by (auto dest: compare_two_mols_length)
  from index_lengths_ok_set[OF assms(2,3) this] st' show ?thesis by simp
qed

lemma match_rmols_inv:
  assumes "match_rmols read_mols float OERMSD sdf_ref ff_dict c rmols st = Inr st'"
    and "index_lengths_ok mols_ref (snd st)" and "set rmols \<subseteq> set mols_ref"
  shows "index_lengths_ok mols_ref (snd st')"
  using assms
proof (induction rmols arbitrary: st)
  case Nil
  then show ?case by simp
next
  case (Cons rmol rmols)
  from Cons.prems(1) obtain st1 where
    s1: "match_rmol read_mols float OERMSD sdf_ref ff_dict c rmol st = Inr st1"
    and s2: "match_rmols read_mols float OERMSD sdf_ref ff_dict c rmols st1 = Inr st'"
    by (auto split: sum.splits)
  have "index_lengths_ok mols_ref (snd st1)"
    using match_rmol_inv[OF s1 Cons.prems(2)] Cons.prems(3) by simp
  from Cons.IH[OF s2 this] Cons.prems(3) show ?case by simp
qed

lemma match_methods_inv:
  assumes "match_methods read_mols float OERMSD sdf_ref c ms d = Inr d'"
    and "read_mols sdf_ref = Inr mols_ref" and "index_lengths_ok mols_ref d"
  shows "index_lengths_ok mols_ref d'"
  using assms
proof (induction ms arbitrary: d)
  case Nil
  then show ?case by simp
next
  case (Cons ff_dict ms)
  from Cons.prems(1,2) obtain mols_query st where
    s1: "match_rmols read_mols float OERMSD sdf_ref ff_dict c mols_ref (mols_query, d) = Inr st"
    and s2: "match_methods read_mols float OERMSD sdf_ref c ms (snd st) = Inr d'"
    by (auto split: sum.splits)
  have "index_lengths_ok mols_ref (snd st)"
    using match_rmols_inv[OF s1, of mols_ref] Cons.prems(3) by simp
  from Cons.IH[OF s2 Cons.prems(2) this] show ?case .
qed

text \<open>The orchestrator returns a dictionary on every configuration with at least one
  method whose files can be read, hold molecules with conformers only and have energy
  values that \<open>float\<close> accepts.\<close>

lemma scan_query_found:
  "scan_query t qs = (found, rest) \<Longrightarrow>
     set rest \<subseteq> set qs \<and> (\<forall>q. found = Some q \<longrightarrow> q \<in> set qs \<and> GetTitle q = t)"
  by (induction qs) (auto split: if_splits)

lemma map_float_total:
  assumes "\<forall>s \<in> set xs. float s \<noteq> None"
  shows "map_float float xs = Inr (map (\<lambda>s. the (float s)) xs)"
  unfolding map_float_def by (rule sequence_res_map_Inr) (use assms in auto)

lemma compare_two_mols_returns:
  assumes "GetConfs qmol \<noteq> []"
  shows "\<exists>out. compare_two_mols OERMSD rmol qmol c = Inr out"
  using compare_loop_ok[OF assms, of OERMSD "GetConfs rmol" c "[]"]
  by (auto simp: compare_two_mols_def)

lemma match_rmol_returns:
  assumes r: "readable read_mols float ff_dict mols" and sub: "set (fst st) \<subseteq> set mols"
  shows "\<exists>st'. match_rmol read_mols float OERMSD sdf_ref ff_dict c rmol st = Inr st'
           \<and> set (fst st') \<subseteq> set mols"
proof -
  obtain found rest where sq: "scan_query (GetTitle rmol) (fst st) = (found, rest)"
    by (cases "scan_query (GetTitle rmol) (fst st)")
  from scan_query_found[OF sq] sub have rest: "set rest \<subseteq> set mols"
    and fnd: "\<And>q. found = Some q \<Longrightarrow> q \<in> set mols" by auto
  from r have rd: "read_mols (sdfile ff_dict) = Inr mols" by (simp add: readable_def)
  show ?thesis
  proof (cases found)
    case None
    then show ?thesis using sq rd by (simp add: match_rmol_def Let_def)
  next
    case (Some qmol)
    then have q: "qmol \<in> set mols" by (rule fnd)
    with r have c: "GetConfs qmol \<noteq> []"
      and f: "\<forall>s \<in> set (get_sd_list qmol (sdtag ff_dict)). float s \<noteq> None"
      by (auto simp: readable_def)
    from compare_two_mols_returns[OF c] obtain out where
      "compare_two_mols OERMSD rmol qmol c = Inr out" by blast
    then show ?thesis using Some sq rest map_float_total[OF f]
      by (simp add: match_rmol_def Let_def)
  qed
qed

lemma match_rmols_returns:
  assumes "readable read_mols float ff_dict mols" and "set (fst st) \<subseteq> set mols"
  shows "\<exists>st'. match_rmols read_mols float OERMSD sdf_ref ff_dict c rmols st = Inr st'"
  using assms(2)
proof (induction rmols arbitrary: st)
  case Nil
  then show ?case by simp
next
  case (Cons rmol rmols)
  from match_rmol_returns[OF assms(1) Cons.prems, of OERMSD sdf_ref c rmol] obtain st1 where
    s1: "match_rmol read_mols float OERMSD sdf_ref ff_dict c rmol st = Inr st1"
    and sub: "set (fst st1) \<subseteq> set mols" by blast
  from Cons.IH[OF sub] s1 show ?case by simp
qed

lemma match_methods_returns:
  assumes "\<forall>ff_dict \<in> set ms. \<exists>mols. readable read_mols float ff_dict mols"
    and "read_mols sdf_ref = Inr mols_ref"
  shows "\<exists>d'. match_methods read_mols float OERMSD sdf_ref c ms d = Inr d'"
  using assms(1)
proof (induction ms arbitrary: d)
  case Nil
  then show ?case by simp
next
  case (Cons ff_dict ms)
  then obtain mols where r: "readable read_mols float ff_dict mols" by auto
  then have rd: "read_mols (sdfile ff_dict) = Inr mols" by (simp add: readable_def)
  from match_rmols_returns[OF r, of "(mols, d)" OERMSD sdf_ref c mols_ref] obtain st where
    s: "match_rmols read_mols float OERMSD sdf_ref ff_dict c mols_ref (mols, d) = Inr st" by auto
  from Cons.IH[of "snd st"] Cons.prems obtain d' where
    "match_methods read_mols float OERMSD sdf_ref c ms (snd st) = Inr d'" by auto
  then show ?case using assms(2) rd s by simp
qed

lemma match_minima_returns:
  assumes "in_dict \<noteq> []"
    and "\<forall>ff_dict \<in> set in_dict. \<exists>mols. readable read_mols float ff_dict mols"
  shows "\<exists>mol_dict. match_minima read_mols float OERMSD in_dict rmsd_cutoff = Inr mol_dict"
proof -
  from assms(1) obtain ref rest where id: "in_dict = ref # rest" by (cases in_dict) auto
  with assms(2) obtain mols_ref where "readable read_mols float ref mols_ref" by auto
  then have "read_mols (sdfile ref) = Inr mols_ref" by (simp add: readable_def)
  from match_methods_returns[OF assms(2) this, of OERMSD rmsd_cutoff "[]"] id
  show ?thesis by (simp add: match_minima_def)
qed

subsection \<open>From the relative energies to the RMS error\<close>

text \<open>On a well-shaped table the result of \<open>calc_rel_ene\<close> is a table as
  \<open>calc_rms_error\<close> expects it, so the relative energies and the reference conformers of
  one run always have an RMS error for every molecule and method.\<close>

lemma calc_rel_ene_rectangular:
  assumes "well_shaped matched_enes" and "calc_rel_ene matched_enes = Inr (rel, zs)"
  shows "rectangular rel zs"
proof -
  from calc_rel_ene_ok[OF assms(1)] assms(2) have
    rel: "rel = map (\<lambda>i. map (\<lambda>row. map (\<lambda>j. fsub (row ! j) (row ! (zs ! i))) [0..<length row])
                                 (matched_enes ! i)) [0..<length matched_enes]"
    and l: "length zs = length matched_enes"
    and z: "\<forall>i<length matched_enes. zs ! i < length (matched_enes ! i ! 0)" by auto
  have step: "rel ! i \<noteq> [] \<and> zs ! i < length (rel ! i ! 0) \<and>
          (\<forall>row\<in>set (rel ! i). length row = length (rel ! i ! 0))"
    if i: "i < length matched_enes" for i
  proof -
    have ws: "well_shaped_mol (matched_enes ! i)"
      using assms(1) i by (simp add: well_shaped_def list_all_length)
    note d = well_shaped_molD[OF ws]
    have ri: "rel ! i = map (\<lambda>row. map (\<lambda>j. fsub (row ! j) (row ! (zs ! i))) [0..<length row])
                            (matched_enes ! i)"
      using rel i by simp
    have ne: "rel ! i \<noteq> []" using ri d(1) by simp
    have l0: "length (rel ! i ! 0) = length (matched_enes ! i ! 0)"
      using ri d(1) by (simp add: nth_map)
    have "length row = length (matched_enes ! i ! 0)" if "row \<in> set (rel ! i)" for row
    proof -
      from that ri obtain r where r: "r \<in> set (matched_enes ! i)" "length row = length r" by auto
      from r(2) d(3)[OF r(1)] show ?thesis by (rule trans)
    qed
    then have "\<forall>row\<in>set (rel ! i). length row = length (rel ! i ! 0)"
      unfolding l0 by blast
    moreover have "zs ! i < length (rel ! i ! 0)" unfolding l0 using z i by blast
    ultimately show ?thesis using ne by blast
  qed
  have lr: "length rel = length matched_enes" unfolding rel by simp
  have "\<forall>i\<in>set [0..<length rel]. rel ! i \<noteq> [] \<and> zs ! i < length (rel ! i ! 0) \<and>
          (\<forall>row\<in>set (rel ! i). length row = length (rel ! i ! 0))"
  proof
    fix i assume "i \<in> set [0..<length rel]"
    then have "i < length matched_enes" using lr by simp
    then show "rel ! i \<noteq> [] \<and> zs ! i < length (rel ! i ! 0) \<and>
          (\<forall>row\<in>set (rel ! i). length row = length (rel ! i ! 0))" by (rule step)
  qed
  moreover have "length zs = length rel" using l lr by simp
  ultimately show ?thesis unfolding rectangular_def list_all_iff by blast
qed

lemma relative_then_rms_returns:
  assumes "well_shaped matched_enes"
  shows "\<exists>rel zs rms. calc_rel_ene matched_enes = Inr (rel, zs) \<and> calc_rms_error rel zs = Inr rms"
proof -
  from calc_rel_ene_ok[OF assms] obtain rel zs where c: "calc_rel_ene matched_enes = Inr (rel, zs)"
    by blast
  from calc_rel_ene_rectangular[OF assms c] have r: "rectangular rel zs" .
  have "calc_rms_error rel zs
           = Inr (map (\<lambda>i. map (\<lambda>row. rms_spec row (rel ! i ! 0) (zs ! i)) (rel ! i)) [0..<length rel])"
    unfolding calc_rms_error_def
  proof (rule sequence_res_map_Inr)
    fix i assume "i \<in> set [0..<length rel]"
    from r have lz: "length zs = length rel"
      and all: "\<forall>i\<in>set [0..<length rel]. rel ! i \<noteq> [] \<and> zs ! i < length (rel ! i ! 0) \<and>
          (\<forall>row\<in>set (rel ! i). length row = length (rel ! i ! 0))"
      unfolding rectangular_def list_all_iff by blast+
    from all \<open>i \<in> set [0..<length rel]\<close>
    have a: "rel ! i \<noteq> []" "zs ! i < length (rel ! i ! 0)"
      "\<forall>row\<in>set (rel ! i). length row = length (rel ! i ! 0)" by blast+
    have "i < length zs" using \<open>i \<in> set [0..<length rel]\<close> lz by simp
    note a = a this
    show "rms_mol (rel ! i) zs i = Inr (map (\<lambda>row. rms_spec row (rel ! i ! 0) (zs ! i)) (rel ! i))"
      using rms_mol_eq[OF a(1) a(3) a(4) a(2)] .
  qed
  with c show ?thesis by blast
qed

text \<open>The search in the generator returns the first molecule of the title among those
  not yet taken from it.\<close>

lemma scan_query_first: "fst (scan_query t qs) = find (\<lambda>qmol. t = GetTitle qmol) qs"
  by (induction qs) simp_all

subsection \<open>The example of the specification\<close>

text \<open>One molecule with three reference conformers: the raw energies \<open>[10, 11, 12]\<close> of
  the second method with the index list \<open>[2, 0, 1]\<close> give the matched energies
  \<open>[12, 10, 11]\<close>; no energy is missing, the reference conformer is position 0 and the
  relative energies are \<open>[0, 1, 2]\<close> and \<open>[0, -2, -1]\<close>.\<close>

lemma extract_file_spec_example:
  "extract_file [[Fin 0, Fin 1, Fin 2], [Fin 10, Fin 11, Fin 12]] 1 [Some 2, Some 0, Some 1]
     = Inr [Fin 12, Fin 10, Fin 11]"
  by (simp add: extract_file_def extract_conf_def py_get_def upt_rec)

lemma calc_rel_ene_spec_example:
  "calc_rel_ene [[[Fin 0, Fin 1, Fin 2], [Fin 12, Fin 10, Fin 11]]]
     = Inr ([[[Fin 0, Fin 1, Fin 2], [Fin 0, Fin (- 2), Fin (- 1)]]], [0])"
proof -
  let ?m = "[[Fin 0, Fin 1, Fin 2], [Fin 12, Fin 10, Fin 11]]"
  have c: "nan_count ?m 0 = Inr 0" "nan_count ?m (Suc 0) = Inr 0" "nan_count ?m (Suc (Suc 0)) = Inr 0"
    by (simp_all add: nan_count_def column_def py_get_def)
  have s: "scan_thresholds [0, 0, 0] (Suc (Suc (Suc 0))) [] 0 = [0, Suc 0, Suc (Suc 0)]"
    by (simp add: scan_thresholds_eq upt_rec np_where_eq_def)
  have a: "np_argmin [Fin 0, Fin 1, Fin 2] = Inr 0" by (simp add: np_argmin_def upt_rec)
  have z: "lowest_conf ?m = Inr 0"
    by (simp add: lowest_conf_def py_get_def c s a)
  have r0: "rel_row 0 [Fin 0, Fin 1, Fin 2] = Inr [Fin 0, Fin 1, Fin 2]"
    by (simp add: rel_row_def py_get_def upt_rec)
  have r1: "rel_row 0 [Fin 12, Fin 10, Fin 11] = Inr [Fin 0, Fin (- 2), Fin (- 1)]"
    by (simp add: rel_row_def py_get_def upt_rec)
  have "rel_mol 0 ?m = Inr [[Fin 0, Fin 1, Fin 2], [Fin 0, Fin (- 2), Fin (- 1)]]"
    by (simp add: rel_mol_def r0 r1)
  then show ?thesis by (simp add: calc_rel_ene_def z)
qed

subsection \<open>One index list for every molecule and method\<close>

lemma map_of_dict_set: "map_of (dict_set k v d) = (map_of d)(k \<mapsto> v)"
  by (induction d) (auto simp: fun_eq_iff)

lemma dict_get_dict_set: "dict_get (dict_set k v d) t = (if t = k then v else dict_get d t)"
  by (simp add: dict_get_def map_of_dict_set)

lemma match_rmol_appends:
  assumes "match_rmol read_mols float OERMSD sdf_ref ff_dict c rmol st = Inr st'"
  shows "\<exists>e' new. snd st' = dict_set (GetTitle rmol) e' (snd st)
           \<and> indices e' = indices (dict_get (snd st) (GetTitle rmol)) @ [new]
           \<and> length new = NumConfs rmol"
proof (cases "fst (scan_query (GetTitle rmol) (fst st))")
  case None
  with assms obtain fresh where
    "st' = (fresh, dict_set (GetTitle rmol)
               ((dict_get (snd st) (GetTitle rmol))
                  \<lparr>indices := indices (dict_get (snd st) (GetTitle rmol))
                                 @ [replicate (NumConfs rmol) (Some (- 2))],
                   energies := energies (dict_get (snd st) (GetTitle rmol))
                                 @ [replicate (NumConfs rmol) NaN],
                   ref_nconfs := ref_nconfs (dict_get (snd st) (GetTitle rmol)) @ [NumConfs rmol]\<rparr>)
               (snd st))"
    by (auto simp: match_rmol_def Let_def split: prod.splits sum.splits)
  then show ?thesis
    by (intro exI[of _ "(dict_get (snd st) (GetTitle rmol))
                  \<lparr>indices := indices (dict_get (snd st) (GetTitle rmol))
                                 @ [replicate (NumConfs rmol) (Some (- 2))],
                   energies := energies (dict_get (snd st) (GetTitle rmol))
                                 @ [replicate (NumConfs rmol) NaN],
                   ref_nconfs := ref_nconfs (dict_get (snd st) (GetTitle rmol)) @ [NumConfs rmol]\<rparr>"]
              exI[of _ "replicate (NumConfs rmol) (Some (- 2))"]) simp
next
  case (Some qmol)
  with assms obtain q enes new where
    st': "st' = (q, dict_set (GetTitle rmol)
               ((dict_get (snd st) (GetTitle rmol))
                  \<lparr>energies := energies (dict_get (snd st) (GetTitle rmol)) @ [enes],
                   indices := indices (dict_get (snd st) (GetTitle rmol)) @ [new]\<rparr>)
               (snd st))"
    and new: "new = replicate (NumConfs rmol) (Some (- 1))
              \<or> compare_two_mols OERMSD rmol qmol c = Inr new"
    by (auto simp: match_rmol_def Let_def split: prod.splits sum.splits if_splits)
  from new have "length new = NumConfs rmol" by (auto dest: compare_two_mols_length)
  with st' show ?thesis
    by (intro exI[of _ "(dict_get (snd st) (GetTitle rmol))
                  \<lparr>energies := energies (dict_get (snd st) (GetTitle rmol)) @ [enes],
                   indices := indices (dict_get (snd st) (GetTitle rmol)) @ [new]\<rparr>"]
              exI[of _ new]) simp
qed

lemma match_rmol_stored:
  assumes "match_rmol read_mols float OERMSD sdf_ref ff_dict c rmol st = Inr st'"
  shows "stored_lengths (snd st') t = stored_lengths (snd st) t @ ref_counts [rmol] t"
proof -
  from match_rmol_appends[OF assms] obtain e' new where
    d: "snd st' = dict_set (GetTitle rmol) e' (snd st)"
    and e: "indices e' = indices (dict_get (snd st) (GetTitle rmol)) @ [new]"
    and n: "length new = NumConfs rmol" by blast
  show ?thesis
  proof (cases "GetTitle rmol = t")
    case True
    then show ?thesis using d e n by (simp add: stored_lengths_def ref_counts_def dict_get_dict_set)
  next
    case False
    then have "t \<noteq> GetTitle rmol" by blast
    then show ?thesis using d False by (simp add: stored_lengths_def ref_counts_def dict_get_dict_set)
  qed
qed

lemma ref_counts_Cons: "ref_counts (rmol # rmols) t = ref_counts [rmol] t @ ref_counts rmols t"
  by (simp add: ref_counts_def)

lemma match_rmols_stored:
  assumes "match_rmols read_mols float OERMSD sdf_ref ff_dict c rmols st = Inr st'"
  shows "stored_lengths (snd st') t = stored_lengths (snd st) t @ ref_counts rmols t"
  using assms
proof (induction rmols arbitrary: st)
  case Nil
  then show ?case by (simp add: ref_counts_def)
next
  case (Cons rmol rmols)
  from Cons.prems obtain st1 where
    s1: "match_rmol read_mols float OERMSD sdf_ref ff_dict c rmol st = Inr st1"
    and s2: "match_rmols read_mols float OERMSD sdf_ref ff_dict c rmols st1 = Inr st'"
    by (auto split: sum.splits)
  from Cons.IH[OF s2] match_rmol_stored[OF s1, of t] show ?case
    by (simp add: ref_counts_Cons[of rmol rmols])
qed

lemma match_methods_stored:
  assumes "match_methods read_mols float OERMSD sdf_ref c ms d = Inr d'"
    and "read_mols sdf_ref = Inr mols_ref"
  shows "stored_lengths d' t
           = stored_lengths d t @ concat (replicate (length ms) (ref_counts mols_ref t))"
  using assms(1)
proof (induction ms arbitrary: d)
  case Nil
  then show ?case by simp
next
  case (Cons ff_dict ms)
  from Cons.prems assms(2) obtain mols_query st where
    s1: "match_rmols read_mols float OERMSD sdf_ref ff_dict c mols_ref (mols_query, d) = Inr st"
    and s2: "match_methods read_mols float OERMSD sdf_ref c ms (snd st) = Inr d'"
    by (auto split: sum.splits)
  from Cons.IH[OF s2] match_rmols_stored[OF s1, of t] show ?case by simp
qed

lemma filter_title_distinct:
  assumes "distinct (map GetTitle mols)" and "rmol \<in> set mols"
  shows "filter (\<lambda>r. GetTitle r = GetTitle rmol) mols = [rmol]"
  using assms
proof (induction mols)
  case Nil
  then show ?case by simp
next
  case (Cons a mols)
  show ?case
  proof (cases "a = rmol")
    case True
    have "filter (\<lambda>r. GetTitle r = GetTitle rmol) mols = []"
      using Cons.prems(1) True by (auto simp: filter_empty_conv image_iff)
    then show ?thesis using True by simp
  next
    case False
    then have in_rest: "rmol \<in> set mols" using Cons.prems(2) by simp
    then have "GetTitle a \<noteq> GetTitle rmol" using Cons.prems(1) by auto
    then show ?thesis using Cons.IH in_rest Cons.prems(1) by simp
  qed
qed

lemma ref_counts_distinct:
  assumes "distinct (map GetTitle mols)" and "rmol \<in> set mols"
  shows "ref_counts mols (GetTitle rmol) = [NumConfs rmol]"
  by (simp add: ref_counts_def filter_title_distinct[OF assms])

lemma concat_replicate_single: "concat (replicate n [c]) = replicate n c"
  by (induction n) simp_all

lemma ex_get_sd_list:
  "get_sd_list ex_molA ''qm energy'' = [''1.0'']" "get_sd_list ex_molB ''qm energy'' = [''2.0'']"
  by code_simp+

lemma ex_readable_each:
  "readable ex_read_mols ex_float
     \<lparr>ff_label = ''ref'', sdfile = ''ref.sdf'', sdtag = ''qm energy''\<rparr> [ex_molA, ex_molB]"
  "readable ex_read_mols ex_float
     \<lparr>ff_label = ''query'', sdfile = ''query.sdf'', sdtag = ''qm energy''\<rparr> [ex_molB, ex_molA]"
proof -
  have c: "GetConfs ex_molA \<noteq> []" "GetConfs ex_molB \<noteq> []"
    by (simp_all add: ex_molA_def ex_molB_def)
  show "readable ex_read_mols ex_float
          \<lparr>ff_label = ''ref'', sdfile = ''ref.sdf'', sdtag = ''qm energy''\<rparr> [ex_molA, ex_molB]"
    by (simp add: readable_def ex_read_mols_def ex_get_sd_list ex_float_def c)
  show "readable ex_read_mols ex_float
          \<lparr>ff_label = ''query'', sdfile = ''query.sdf'', sdtag = ''qm energy''\<rparr> [ex_molB, ex_molA]"
    by (simp add: readable_def ex_read_mols_def ex_get_sd_list ex_float_def c)
qed

text \<open>
  Claim C9. On a configuration with at least one method whose files can be read, hold
  molecules with conformers only and have energy values that \<open>float\<close> accepts,
  \<open>match_minima\<close> returns a dictionary. In every dictionary it returns, the index lists
  stored under a title are, method after method in the order of the configuration, one
  list for every reference molecule of that title, with as many entries as that
  reference molecule has conformers, whichever of the three ways produced the list
  (molecule absent, query file is the reference file, geometry match). So every
  reference molecule has an entry, and when the titles of the reference file are
  distinct its entry holds exactly one index list per method, each of the conformer
  count of that reference molecule.
\<close>

theorem match_minima_index_lengths:
  "(in_dict \<noteq> [] \<and> (\<forall>ff_dict \<in> set in_dict. \<exists>mols. readable read_mols float ff_dict mols) \<longrightarrow>
      (\<exists>d. match_minima read_mols float OERMSD in_dict rmsd_cutoff = Inr d)) \<and>
   (match_minima read_mols float OERMSD in_dict rmsd_cutoff = Inr mol_dict \<longrightarrow>
      (\<exists>ref rest mols_ref. in_dict = ref # rest \<and> read_mols (sdfile ref) = Inr mols_ref \<and>
         (\<forall>t. stored_lengths mol_dict t
                = concat (replicate (length in_dict) (ref_counts mols_ref t))) \<and>
         (\<forall>rmol \<in> set mols_ref. \<exists>e. map_of mol_dict (GetTitle rmol) = Some e \<and>
            (distinct (map GetTitle mols_ref) \<longrightarrow>
               length (indices e) = length in_dict \<and>
               (\<forall>k<length in_dict. length (indices e ! k) = NumConfs rmol))) \<and>
         (\<forall>(t, e) \<in> set mol_dict. \<forall>idxs \<in> set (indices e).
            \<exists>rmol \<in> set mols_ref. GetTitle rmol = t \<and> length idxs = NumConfs rmol)))"
proof (intro conjI impI)
  assume "in_dict \<noteq> [] \<and> (\<forall>ff_dict \<in> set in_dict. \<exists>mols. readable read_mols float ff_dict mols)"
  then show "\<exists>d. match_minima read_mols float OERMSD in_dict rmsd_cutoff = Inr d"
    using match_minima_returns[of in_dict read_mols float OERMSD rmsd_cutoff] by blast
next
  assume mm0: "match_minima read_mols float OERMSD in_dict rmsd_cutoff = Inr mol_dict"
  then obtain ref rest where id: "in_dict = ref # rest"
    and mm: "match_methods read_mols float OERMSD (sdfile ref) rmsd_cutoff in_dict [] = Inr mol_dict"
    by (auto simp: match_minima_def split: list.splits)
  from mm id obtain mols_ref where rd: "read_mols (sdfile ref) = Inr mols_ref"
    by (auto split: sum.splits)
  have "index_lengths_ok mols_ref []" by (simp add: index_lengths_ok_def)
  from match_methods_inv[OF mm rd this] have ok: "index_lengths_ok mols_ref mol_dict" .
  have sl: "stored_lengths mol_dict t = concat (replicate (length in_dict) (ref_counts mols_ref t))"
    for t
    using match_methods_stored[OF mm rd, of t] by (simp add: stored_lengths_def dict_get_def)
  have per: "\<exists>e. map_of mol_dict (GetTitle rmol) = Some e \<and>
            (distinct (map GetTitle mols_ref) \<longrightarrow>
               length (indices e) = length in_dict \<and>
               (\<forall>k<length in_dict. length (indices e ! k) = NumConfs rmol))"
    if r: "rmol \<in> set mols_ref" for rmol
  proof -
    have "NumConfs rmol \<in> set (ref_counts mols_ref (GetTitle rmol))"
      using r by (auto simp: ref_counts_def)
    then have "ref_counts mols_ref (GetTitle rmol) \<noteq> []" by auto
    then have "stored_lengths mol_dict (GetTitle rmol) \<noteq> []"
      unfolding sl using id by simp
    then have "indices (dict_get mol_dict (GetTitle rmol)) \<noteq> []"
      by (simp add: stored_lengths_def)
    then obtain e where e: "map_of mol_dict (GetTitle rmol) = Some e"
      by (cases "map_of mol_dict (GetTitle rmol)") (auto simp: dict_get_def)
    then have g: "dict_get mol_dict (GetTitle rmol) = e" by (simp add: dict_get_def)
    have "length (indices e) = length in_dict \<and>
               (\<forall>k<length in_dict. length (indices e ! k) = NumConfs rmol)"
      if d: "distinct (map GetTitle mols_ref)"
    proof -
      have "map length (indices e) = replicate (length in_dict) (NumConfs rmol)"
        using sl[of "GetTitle rmol"] g ref_counts_distinct[OF d r]
        by (simp add: stored_lengths_def concat_replicate_single)
      then have l: "length (indices e) = length in_dict"
        and n: "\<forall>k<length in_dict. map length (indices e) ! k = NumConfs rmol"
        by (metis length_map length_replicate, simp)
      from l n show ?thesis by simp
    qed
    with e show ?thesis by blast
  qed
  have old: "\<forall>(t, e) \<in> set mol_dict. \<forall>idxs \<in> set (indices e).
            \<exists>rmol \<in> set mols_ref. GetTitle rmol = t \<and> length idxs = NumConfs rmol"
    using ok unfolding index_lengths_ok_def .
  from id rd sl per old
  show "\<exists>ref rest mols_ref. in_dict = ref # rest \<and> read_mols (sdfile ref) = Inr mols_ref \<and>
         (\<forall>t. stored_lengths mol_dict t
                = concat (replicate (length in_dict) (ref_counts mols_ref t))) \<and>
         (\<forall>rmol \<in> set mols_ref. \<exists>e. map_of mol_dict (GetTitle rmol) = Some e \<and>
            (distinct (map GetTitle mols_ref) \<longrightarrow>
               length (indices e) = length in_dict \<and>
               (\<forall>k<length in_dict. length (indices e ! k) = NumConfs rmol))) \<and>
         (\<forall>(t, e) \<in> set mol_dict. \<forall>idxs \<in> set (indices e).
            \<exists>rmol \<in> set mols_ref. GetTitle rmol = t \<and> length idxs = NumConfs rmol)"
    by blast
qed


text \<open>The example: the reference file with the molecules A and B, the query file with
  B and A, two methods. Either title has an entry with two index lists of one entry
  each.\<close>

theorem match_minima_index_lengths_witness:
  "ex_in_dict \<noteq> [] \<and>
   readable ex_read_mols ex_float (ex_in_dict ! 0) [ex_molA, ex_molB] \<and>
   readable ex_read_mols ex_float (ex_in_dict ! 1) [ex_molB, ex_molA] \<and>
   (\<exists>d. match_minima ex_read_mols ex_float ex_rmsd ex_in_dict (1/2) = Inr d \<and>
      (\<exists>ref rest mols_ref. ex_in_dict = ref # rest \<and> ex_read_mols (sdfile ref) = Inr mols_ref \<and>
         distinct (map GetTitle mols_ref) \<and>
         (\<forall>t. stored_lengths d t
                = concat (replicate (length ex_in_dict) (ref_counts mols_ref t))) \<and>
         (\<forall>rmol \<in> set mols_ref. \<exists>e. map_of d (GetTitle rmol) = Some e \<and>
               length (indices e) = length ex_in_dict \<and>
               (\<forall>k<length ex_in_dict. length (indices e ! k) = NumConfs rmol)) \<and>
         (\<forall>(t, e) \<in> set d. \<forall>idxs \<in> set (indices e).
            \<exists>rmol \<in> set mols_ref. GetTitle rmol = t \<and> length idxs = NumConfs rmol)))"
proof -
  have ne: "ex_in_dict \<noteq> []" by (simp add: ex_in_dict_def)
  have r0: "readable ex_read_mols ex_float (ex_in_dict ! 0) [ex_molA, ex_molB]"
    and r1: "readable ex_read_mols ex_float (ex_in_dict ! 1) [ex_molB, ex_molA]"
    using ex_readable_each by (simp_all add: ex_in_dict_def)
  have rd: "\<forall>ff_dict \<in> set ex_in_dict. \<exists>mols. readable ex_read_mols ex_float ff_dict mols"
    using ex_readable_each unfolding ex_in_dict_def by auto
  from match_minima_index_lengths[of ex_in_dict ex_read_mols ex_float ex_rmsd "1/2"] ne rd
  obtain d where d: "match_minima ex_read_mols ex_float ex_rmsd ex_in_dict (1/2) = Inr d"
    by blast
  from match_minima_index_lengths[of ex_in_dict ex_read_mols ex_float ex_rmsd "1/2" d] d
  obtain ref rest mols_ref where
    s: "ex_in_dict = ref # rest" "ex_read_mols (sdfile ref) = Inr mols_ref"
       "\<forall>t. stored_lengths d t = concat (replicate (length ex_in_dict) (ref_counts mols_ref t))"
       "\<forall>rmol \<in> set mols_ref. \<exists>e. map_of d (GetTitle rmol) = Some e \<and>
            (distinct (map GetTitle mols_ref) \<longrightarrow>
               length (indices e) = length ex_in_dict \<and>
               (\<forall>k<length ex_in_dict. length (indices e ! k) = NumConfs rmol))"
       "\<forall>(t, e) \<in> set d. \<forall>idxs \<in> set (indices e).
            \<exists>rmol \<in> set mols_ref. GetTitle rmol = t \<and> length idxs = NumConfs rmol"
    by blast
  from s(1) have "sdfile ref = ''ref.sdf''" by (auto simp: ex_in_dict_def)
  with s(2) have "mols_ref = [ex_molA, ex_molB]" by (simp add: ex_read_mols_def)
  then have dist: "distinct (map GetTitle mols_ref)" by (simp add: ex_molA_def ex_molB_def)
  from s(4) dist have
    "\<forall>rmol \<in> set mols_ref. \<exists>e. map_of d (GetTitle rmol) = Some e \<and>
               length (indices e) = length ex_in_dict \<and>
               (\<forall>k<length ex_in_dict. length (indices e ! k) = NumConfs rmol)" by blast
  with ne r0 r1 d s(1,2,3,5) dist show ?thesis by blast
qed

end
